theory Spec2Isabelle
  imports Complex_Main
begin

section \<open>Ticket number generation\<close>

text \<open>
  The generator of \<^verbatim>\<open>hooks/use-admin-api\<close>:
  \<^verbatim>\<open>
  export const generateRandomTicketNumbers = (count, maxDigits, existingNumbers = []) => {
    const numbers = [];
    const maxNumber = Math.pow(10, maxDigits) - 1;
    while (numbers.length < count) {
      const randomNumber = Math.floor(Math.random() * maxNumber) + 1;
      const ticketNumber = randomNumber.toString().padStart(maxDigits, "0");
      if (!existingNumbers.includes(ticketNumber) && !numbers.includes(ticketNumber)) {
        numbers.push(ticketNumber);
      }
    }
    return numbers;
  };
  \<close>
  Numbers are modelled exactly: \<open>count\<close> and \<open>maxDigits\<close> are naturals, and a value
  returned by \<^verbatim>\<open>Math.random()\<close> is a rational \<open>r\<close> with \<open>0 \<le> r < 1\<close>. While
  \<open>10 ^ maxDigits\<close> is below \<open>2 ^ 53\<close> (so for the widths 1 to 10 a raffle can have) the
  integers of the source are exact doubles, and the double product
  \<^verbatim>\<open>Math.random() * maxNumber\<close>, the rounding of the exact product taken here, stays below
  \<open>maxNumber\<close>, so the source draws from the same range. The successive values of
  \<^verbatim>\<open>Math.random()\<close> are passed as a list. The loop consumes one value per iteration, and
  \<open>None\<close> says that the loop is still running when the values supplied are used up, so a
  call that never returns is \<open>None\<close> for every list.
\<close>

definition isDigit :: "char \<Rightarrow> bool" where
  "isDigit c = (c \<in> set ''0123456789'')"

text \<open>\<^verbatim>\<open>Number.prototype.toString\<close> on a non-negative integer: its decimal digits.\<close>

definition digit_char :: "nat \<Rightarrow> char" where
  "digit_char n = ''0123456789'' ! n"

fun toString :: "nat \<Rightarrow> string" where
  "toString n = (if n < 10 then [digit_char n] else toString (n div 10) @ [digit_char (n mod 10)])"

declare toString.simps [simp del]

text \<open>\<^verbatim>\<open>String.prototype.padStart\<close> with a one-character fill string.\<close>

definition padStart :: "string \<Rightarrow> nat \<Rightarrow> char \<Rightarrow> string" where
  "padStart s targetLength c = replicate (targetLength - length s) c @ s"

text \<open>The candidate of one loop iteration, from the value \<open>r\<close> of \<^verbatim>\<open>Math.random()\<close>.\<close>

definition randomNumber_of :: "nat \<Rightarrow> rat \<Rightarrow> nat" where
  "randomNumber_of maxNumber r = nat \<lfloor>r * of_nat maxNumber\<rfloor> + 1"

definition ticketNumber_of :: "nat \<Rightarrow> nat \<Rightarrow> string" where
  "ticketNumber_of randomNumber maxDigits = padStart (toString randomNumber) maxDigits (CHR ''0'')"

definition random_ticket :: "nat \<Rightarrow> rat \<Rightarrow> string" where
  "random_ticket maxDigits r =
     (let maxNumber = 10 ^ maxDigits - 1;
          randomNumber = randomNumber_of maxNumber r
      in ticketNumber_of randomNumber maxDigits)"

fun generate_loop :: "nat \<Rightarrow> nat \<Rightarrow> string list \<Rightarrow> string list \<Rightarrow> rat list \<Rightarrow> string list option" where
  "generate_loop count maxDigits existingNumbers numbers [] =
     (if length numbers < count then None else Some numbers)"
| "generate_loop count maxDigits existingNumbers numbers (r # rs) =
     (if length numbers < count then
        (let ticketNumber = random_ticket maxDigits r
         in if ticketNumber \<notin> set existingNumbers \<and> ticketNumber \<notin> set numbers
            then generate_loop count maxDigits existingNumbers (numbers @ [ticketNumber]) rs
            else generate_loop count maxDigits existingNumbers numbers rs)
      else Some numbers)"

definition generateRandomTicketNumbers :: "nat \<Rightarrow> nat \<Rightarrow> string list \<Rightarrow> rat list \<Rightarrow> string list option" where
  "generateRandomTicketNumbers count maxDigits existingNumbers rs =
     generate_loop count maxDigits existingNumbers [] rs"

text \<open>Every value of \<^verbatim>\<open>Math.random()\<close> lies in \<open>[0, 1)\<close>.\<close>

definition unit_draws :: "rat list \<Rightarrow> bool" where
  "unit_draws rs = list_all (\<lambda>r. 0 \<le> r \<and> r < 1) rs"

text \<open>Two notions in which the properties are stated: the integer that a string of decimal
  digits represents, and the ticket format of the specification (\<^verbatim>\<open>NumberSpace.isValid\<close>),
  a string of exactly \<open>digitWidth\<close> decimal digits.\<close>

definition decimal_value :: "string \<Rightarrow> nat" where
  "decimal_value s = foldl (\<lambda>acc c. 10 * acc + (of_char c - 48)) 0 s"

definition isValid :: "string \<Rightarrow> nat \<Rightarrow> bool" where
  "isValid candidate digitWidth = (length candidate = digitWidth \<and> list_all isDigit candidate)"

section \<open>The generator in double precision\<close>

text \<open>
  The source computes with doubles. A double is modelled by the rational it denotes, and
  an arithmetic operation by the exact operation followed by \<open>roundDouble\<close>, rounding to
  the nearest double, ties to the even significand (IEEE 754 binary64, 53 significant bits,
  subnormals below \<open>2 ^ - 1022\<close>; arguments are non-negative and far below the overflow
  threshold).

  \<open>bitLength n\<close> is the number of binary digits of \<open>n\<close>, and \<open>floorLog2 x\<close>, for \<open>x > 0\<close>,
  the exponent \<open>e\<close> with \<open>2 ^ e \<le> x < 2 ^ (e + 1)\<close>.
\<close>

fun bitLength :: "nat \<Rightarrow> nat" where
  "bitLength n = (if n = 0 then 0 else Suc (bitLength (n div 2)))"

declare bitLength.simps [simp del]

definition floorLog2 :: "rat \<Rightarrow> int" where
  "floorLog2 x =
     (if 1 \<le> x then int (bitLength (nat \<lfloor>x\<rfloor>)) - 1
      else - int (bitLength (nat (\<lceil>1 / x\<rceil> - 1))))"

definition roundHalfEven :: "rat \<Rightarrow> int" where
  "roundHalfEven q =
     (let n = \<lfloor>q\<rfloor>; f = q - of_int n
      in if f < 1 / 2 then n
         else if 1 / 2 < f then n + 1
         else if even n then n else n + 1)"

definition roundDouble :: "rat \<Rightarrow> rat" where
  "roundDouble x =
     (if x = 0 then 0
      else
        (let e = max (floorLog2 x) (- 1022)
         in if e \<le> 52
            then of_int (roundHalfEven (x * 2 ^ nat (52 - e))) / 2 ^ nat (52 - e)
            else of_int (roundHalfEven (x / 2 ^ nat (e - 52))) * 2 ^ nat (e - 52)))"

text \<open>
  The generator with every operation of the source rounded:
  \<^verbatim>\<open>Math.pow(10, maxDigits) - 1\<close> (the power itself is exact up to \<open>10 ^ 22\<close>),
  \<^verbatim>\<open>Math.random() * maxNumber\<close>, and \<^verbatim>\<open>Math.floor(...) + 1\<close>. A value of \<^verbatim>\<open>Math.random()\<close> is a
  double \<open>r\<close> with \<open>0 \<le> r < 1\<close>, so \<open>r \<le> 1 - 2 ^ - 53\<close>. \<^verbatim>\<open>Number.prototype.toString\<close>
  prints an integer double up to \<open>10 ^ 16\<close> by its decimal digits, as \<open>toString\<close> does; above
  that it prints the shortest digits that round to the double, and from \<open>10 ^ 21\<close> on an
  exponent. That part is not modelled: a call with \<open>maxDigits\<close> above 16 is \<open>Unmodelled\<close>.
  \<open>Running\<close> says that the loop is still running when the values supplied are used up.
\<close>

definition maxNumber_double :: "nat \<Rightarrow> rat" where
  "maxNumber_double maxDigits = roundDouble (10 ^ maxDigits - 1)"

definition randomNumber_double :: "rat \<Rightarrow> rat \<Rightarrow> rat" where
  "randomNumber_double maxNumber r = roundDouble (of_int \<lfloor>roundDouble (r * maxNumber)\<rfloor> + 1)"

definition random_ticket_double :: "nat \<Rightarrow> rat \<Rightarrow> string" where
  "random_ticket_double maxDigits r =
     (let maxNumber = maxNumber_double maxDigits;
          randomNumber = randomNumber_double maxNumber r
      in ticketNumber_of (nat \<lfloor>randomNumber\<rfloor>) maxDigits)"

fun generate_loop_double ::
    "nat \<Rightarrow> nat \<Rightarrow> string list \<Rightarrow> string list \<Rightarrow> rat list \<Rightarrow> string list option" where
  "generate_loop_double count maxDigits existingNumbers numbers [] =
     (if length numbers < count then None else Some numbers)"
| "generate_loop_double count maxDigits existingNumbers numbers (r # rs) =
     (if length numbers < count then
        (let ticketNumber = random_ticket_double maxDigits r
         in if ticketNumber \<notin> set existingNumbers \<and> ticketNumber \<notin> set numbers
            then generate_loop_double count maxDigits existingNumbers (numbers @ [ticketNumber]) rs
            else generate_loop_double count maxDigits existingNumbers numbers rs)
      else Some numbers)"

datatype outcome = Returned "string list" | Running | Unmodelled

definition generateRandomTicketNumbers_double ::
    "nat \<Rightarrow> nat \<Rightarrow> string list \<Rightarrow> rat list \<Rightarrow> outcome" where
  "generateRandomTicketNumbers_double count maxDigits existingNumbers rs =
     (if 16 < maxDigits then Unmodelled
      else
        (case generate_loop_double count maxDigits existingNumbers [] rs of
           None \<Rightarrow> Running
         | Some numbers \<Rightarrow> Returned numbers))"

definition double_draws :: "rat list \<Rightarrow> bool" where
  "double_draws rs = list_all (\<lambda>r. 0 \<le> r \<and> r \<le> 1 - 1 / 2 ^ 53) rs"

section \<open>JavaScript string conversions\<close>

text \<open>
  A string is the list of its code units; the model covers the code units below 256.
  White space and line terminators in that range: TAB, LF, VT, FF, CR, SP and NBSP.
  \<^verbatim>\<open>String.prototype.trim\<close> removes them at both ends.
\<close>

definition isWhiteSpace :: "char \<Rightarrow> bool" where
  "isWhiteSpace c = (of_char c \<in> {9, 10, 11, 12, 13, 32, 160 :: nat})"

definition trimStart :: "string \<Rightarrow> string" where
  "trimStart s = dropWhile isWhiteSpace s"

definition trim :: "string \<Rightarrow> string" where
  "trim s = rev (dropWhile isWhiteSpace (rev (dropWhile isWhiteSpace s)))"

text \<open>
  \<^verbatim>\<open>isNaN(Number(s))\<close> for a string \<open>s\<close>: \<^verbatim>\<open>Number\<close> is not \<^verbatim>\<open>NaN\<close> exactly when \<open>s\<close>,
  white space trimmed, is empty or a \<^verbatim>\<open>StrNumericLiteral\<close> of ECMAScript: an optionally
  signed decimal literal (\<^verbatim>\<open>Infinity\<close>, digits with an optional fraction and an optional
  exponent), or an unsigned binary, octal or hexadecimal integer literal.
\<close>

definition isDecimalDigits :: "string \<Rightarrow> bool" where
  "isDecimalDigits s = (s \<noteq> [] \<and> list_all isDigit s)"

definition isSignedInteger :: "string \<Rightarrow> bool" where
  "isSignedInteger s =
     (case s of
        [] \<Rightarrow> False
      | c # t \<Rightarrow> if c = CHR ''+'' \<or> c = CHR ''-'' then isDecimalDigits t else isDecimalDigits s)"

definition isExponentPartOpt :: "string \<Rightarrow> bool" where
  "isExponentPartOpt e =
     (case e of
        [] \<Rightarrow> True
      | c # t \<Rightarrow> (c = CHR ''e'' \<or> c = CHR ''E'') \<and> isSignedInteger t)"

definition isStrUnsignedDecimalLiteral :: "string \<Rightarrow> bool" where
  "isStrUnsignedDecimalLiteral s =
     (if s = ''Infinity'' then True
      else
        (let intPart = takeWhile isDigit s; rest = dropWhile isDigit s
         in case rest of
              [] \<Rightarrow> intPart \<noteq> []
            | c # afterDot \<Rightarrow>
                if c = CHR ''.''
                then (let fracPart = takeWhile isDigit afterDot;
                          expPart = dropWhile isDigit afterDot
                      in (intPart \<noteq> [] \<or> fracPart \<noteq> []) \<and> isExponentPartOpt expPart)
                else intPart \<noteq> [] \<and> isExponentPartOpt rest))"

definition isStrDecimalLiteral :: "string \<Rightarrow> bool" where
  "isStrDecimalLiteral s =
     (case s of
        [] \<Rightarrow> False
      | c # t \<Rightarrow>
          if c = CHR ''+'' \<or> c = CHR ''-'' then isStrUnsignedDecimalLiteral t
          else isStrUnsignedDecimalLiteral s)"

definition isNonDecimalIntegerLiteral :: "string \<Rightarrow> bool" where
  "isNonDecimalIntegerLiteral s =
     (case s of
        c0 # c1 # t \<Rightarrow>
          c0 = CHR ''0'' \<and> t \<noteq> [] \<and>
          ((c1 \<in> set ''bB'' \<and> list_all (\<lambda>c. c \<in> set ''01'') t) \<or>
           (c1 \<in> set ''oO'' \<and> list_all (\<lambda>c. c \<in> set ''01234567'') t) \<or>
           (c1 \<in> set ''xX'' \<and> list_all (\<lambda>c. c \<in> set ''0123456789abcdefABCDEF'') t))
      | _ \<Rightarrow> False)"

definition isNaN_Number :: "string \<Rightarrow> bool" where
  "isNaN_Number s =
     (let t = trim s
      in \<not> (t = [] \<or> isStrDecimalLiteral t \<or> isNonDecimalIntegerLiteral t))"

section \<open>The submission sheet\<close>

text \<open>
  \<^verbatim>\<open>components/SubmissionBottomSheet.tsx\<close> and the mutation hook \<^verbatim>\<open>useUpdateSubmission\<close> it
  calls. A submission carries the fields the handlers read.
\<close>

datatype submission_status = Pending | Approved | Rejected

record submission =
  submission_id :: string
  ticket_quantity :: nat
  submission_status :: submission_status

text \<open>The body of the \<^verbatim>\<open>PUT /submissions/:id\<close> request; \<open>None\<close> is an absent field.\<close>

record update_data =
  data_status :: submission_status
  data_assignTickets :: "bool option"
  data_ticketNumbers :: "string list option"
  data_admin_notes :: "string option"

datatype request = UpdateSubmission string update_data

text \<open>
  The alerts of the two handlers, one constructor per message:
  \<^item> \<open>InvalidTicketNumbers n\<close>: "Please ensure all ticket numbers are n-digit numbers";
  \<^item> \<open>TicketNumbersNotUnique\<close>: "Please ensure all ticket numbers are unique"
    (the spec's \<^verbatim>\<open>DuplicateInBatch\<close>);
  \<^item> \<open>TicketNumbersExist conflicts\<close>: "Ticket number(s) ... already exist", listing
    \<open>conflicts\<close> (the spec's \<^verbatim>\<open>ConflictWithExisting\<close>);
  \<^item> \<open>RejectionReasonMissing\<close>: "Please provide a rejection reason"
    (the spec's \<^verbatim>\<open>MissingReason\<close>).
\<close>

datatype alert =
    InvalidTicketNumbers nat
  | TicketNumbersNotUnique
  | TicketNumbersExist "string list"
  | ApproveSucceeded
  | ApproveFailed
  | RejectionReasonMissing
  | RejectSucceeded
  | RejectFailed

text \<open>
  The query cache: a query is stored under its key, an array of strings and
  \<^verbatim>\<open>undefined\<close> (\<open>None\<close>), with a flag that says it was invalidated.
  \<^verbatim>\<open>invalidateQueries({ queryKey })\<close> marks every query whose key starts with the given one.
\<close>

type_synonym query_key = "string option list"

record query =
  queryKey :: query_key
  isInvalidated :: bool

fun partialMatchKey :: "query_key \<Rightarrow> query_key \<Rightarrow> bool" where
  "partialMatchKey a [] = True"
| "partialMatchKey [] (y # ys) = False"
| "partialMatchKey (x # xs) (y # ys) = (x = y \<and> partialMatchKey xs ys)"

definition invalidateQueries :: "query_key \<Rightarrow> query list \<Rightarrow> query list" where
  "invalidateQueries filterKey qs =
     map (\<lambda>q. if partialMatchKey (queryKey q) filterKey then q\<lparr>isInvalidated := True\<rparr> else q) qs"

text \<open>The queries that the four calls of \<^verbatim>\<open>onSuccess\<close> below reach, by the first element of
  the key.\<close>

definition staleAfterUpdate :: "query_key \<Rightarrow> bool" where
  "staleAfterUpdate key =
     (case key of
        Some name # _ \<Rightarrow>
          name \<in> set [''submissions'', ''stats'', ''existingTicketNumbers'', ''approvedTickets'']
      | _ \<Rightarrow> False)"

text \<open>The props of the sheet, and its state together with what its handlers act on.\<close>

record sheet_props =
  submission :: "submission option"
  raffleMaxDigits :: nat
  existingTicketNumbers :: "string list"

record sheet =
  ticketNumbers :: "string list"
  rejectionNote :: string
  isApproving :: bool
  isRejecting :: bool
  alerts :: "alert list"
  requests :: "request list"
  queries :: "query list"
  onCloseCalls :: nat

definition showAlert :: "alert \<Rightarrow> sheet \<Rightarrow> sheet" where
  "showAlert a w = w\<lparr>alerts := alerts w @ [a]\<rparr>"

definition onClose :: "sheet \<Rightarrow> sheet" where
  "onClose w = w\<lparr>onCloseCalls := onCloseCalls w + 1\<rparr>"

text \<open>
  \<^verbatim>\<open>useUpdateSubmission\<close>: \<^verbatim>\<open>mutateAsync\<close> sends the request; when the server accepts it
  (\<open>ok\<close>), \<^verbatim>\<open>onSuccess\<close> runs before the promise resolves, otherwise the promise rejects.
\<close>

definition onSuccess :: "sheet \<Rightarrow> sheet" where
  "onSuccess w =
     w\<lparr>queries :=
         invalidateQueries [Some ''approvedTickets'']
           (invalidateQueries [Some ''existingTicketNumbers'']
             (invalidateQueries [Some ''stats'']
               (invalidateQueries [Some ''submissions''] (queries w))))\<rparr>"

definition mutateAsync :: "bool \<Rightarrow> request \<Rightarrow> sheet \<Rightarrow> sheet" where
  "mutateAsync ok req w =
     (let sent = w\<lparr>requests := requests w @ [req]\<rparr>
      in if ok then onSuccess sent else sent)"

text \<open>The test of the \<^verbatim>\<open>invalidNumbers\<close> filter of \<^verbatim>\<open>handleApprove\<close>.\<close>

definition invalidNumber :: "nat \<Rightarrow> string \<Rightarrow> bool" where
  "invalidNumber maxDigits number =
     (number = [] \<or> length number \<noteq> maxDigits \<or> isNaN_Number number)"

definition handleApprove :: "sheet_props \<Rightarrow> bool \<Rightarrow> sheet \<Rightarrow> sheet" where
  "handleApprove props ok w =
     (case submission props of
        None \<Rightarrow> w
      | Some sub \<Rightarrow>
          (let invalidNumbers = filter (invalidNumber (raffleMaxDigits props)) (ticketNumbers w)
           in if length invalidNumbers > 0
              then showAlert (InvalidTicketNumbers (raffleMaxDigits props)) w
              else
                (let uniqueNumbers = remdups (ticketNumbers w)
                 in if length uniqueNumbers \<noteq> length (ticketNumbers w)
                    then showAlert TicketNumbersNotUnique w
                    else
                      (let conflicts =
                             filter (\<lambda>number. number \<in> set (existingTicketNumbers props))
                               (ticketNumbers w)
                       in if length conflicts > 0
                          then showAlert (TicketNumbersExist conflicts) w
                          else
                            (let w1 = w\<lparr>isApproving := True\<rparr>;
                                 w2 = mutateAsync ok
                                        (UpdateSubmission (submission_id sub)
                                           \<lparr>data_status = Approved,
                                            data_assignTickets = Some True,
                                            data_ticketNumbers = Some (ticketNumbers w),
                                            data_admin_notes = None\<rparr>) w1;
                                 w3 = (if ok then onClose (showAlert ApproveSucceeded w2)
                                       else showAlert ApproveFailed w2)
                             in w3\<lparr>isApproving := False\<rparr>)))))"

definition handleReject :: "sheet_props \<Rightarrow> bool \<Rightarrow> sheet \<Rightarrow> sheet" where
  "handleReject props ok w =
     (case submission props of
        None \<Rightarrow> w
      | Some sub \<Rightarrow>
          if trim (rejectionNote w) = []
          then showAlert RejectionReasonMissing w
          else
            (let w1 = w\<lparr>isRejecting := True\<rparr>;
                 w2 = mutateAsync ok
                        (UpdateSubmission (submission_id sub)
                           \<lparr>data_status = Rejected,
                            data_assignTickets = None,
                            data_ticketNumbers = None,
                            data_admin_notes = Some (rejectionNote w)\<rparr>) w1;
                 w3 = (if ok then onClose (showAlert RejectSucceeded w2)
                       else showAlert RejectFailed w2)
             in w3\<lparr>isRejecting := False\<rparr>))"

section \<open>Raffles, tickets and paged lists\<close>

text \<open>The raffle and the ticket of \<^verbatim>\<open>hooks/use-admin-api\<close>, with the fields the code below reads.\<close>

datatype raffle_status = Draft | Open | Closed | Completed

record raffle =
  raffle_id :: string
  raffle_title :: string
  raffle_max_ticket_digits :: nat
  raffle_status :: raffle_status
  created_at :: string

record ticket =
  ticket_id :: string
  ticket_submission_id :: string
  ticket_number :: string

text \<open>
  A page of an infinite query, one record per endpoint, and the accumulation of the screen
  \<^verbatim>\<open>app/(tabs)/index.tsx\<close>:
  \<^verbatim>\<open>submissions?.pages?.flatMap((page) => page.submissions) || []\<close>, and the same for
  \<^verbatim>\<open>approvedTickets\<close> and \<^verbatim>\<open>raffles\<close>. The data of a query that has not loaded is \<open>None\<close>.
\<close>

record pagination =
  hasMore :: bool
  nextCursor :: "string option"

record submissions_page =
  submissions :: "submission list"
  submissions_pagination :: pagination

record tickets_page =
  tickets :: "ticket list"
  tickets_pagination :: pagination

record raffles_page =
  raffles :: "raffle list"
  raffles_pagination :: pagination

primrec flatMap :: "('a \<Rightarrow> 'b list) \<Rightarrow> 'a list \<Rightarrow> 'b list" where
  "flatMap f [] = []"
| "flatMap f (x # xs) = f x @ flatMap f xs"

definition allSubmissions :: "submissions_page list option \<Rightarrow> submission list" where
  "allSubmissions data = (case data of None \<Rightarrow> [] | Some pages \<Rightarrow> flatMap submissions pages)"

definition allTickets :: "tickets_page list option \<Rightarrow> ticket list" where
  "allTickets data = (case data of None \<Rightarrow> [] | Some pages \<Rightarrow> flatMap tickets pages)"

definition allRaffles :: "raffles_page list option \<Rightarrow> raffle list" where
  "allRaffles data = (case data of None \<Rightarrow> [] | Some pages \<Rightarrow> flatMap raffles pages)"






section \<open>The raffle form\<close>

text \<open>
  \<^verbatim>\<open>parseInt(string)\<close> with no radix: leading white space is dropped, then an optional sign,
  then an optional \<^verbatim>\<open>0x\<close> or \<^verbatim>\<open>0X\<close> that selects radix 16; the longest prefix of digits of
  the radix is read, and no digit gives \<^verbatim>\<open>NaN\<close> (\<open>None\<close>). The value is kept exact.
\<close>

definition isHexDigit :: "char \<Rightarrow> bool" where
  "isHexDigit c = (c \<in> set ''0123456789abcdefABCDEF'')"

definition digitValue :: "char \<Rightarrow> nat" where
  "digitValue c =
     (if isDigit c then of_char c - 48
      else if c \<in> set ''abcdef'' then of_char c - 87
      else of_char c - 55)"

definition radixValue :: "nat \<Rightarrow> string \<Rightarrow> nat" where
  "radixValue R Z = foldl (\<lambda>acc c. R * acc + digitValue c) 0 Z"

definition parseInt :: "string \<Rightarrow> int option" where
  "parseInt inputString =
     (let S = trimStart inputString;
          sign = (if S \<noteq> [] \<and> hd S = CHR ''-'' then - 1 else 1);
          S1 = (if S \<noteq> [] \<and> (hd S = CHR ''+'' \<or> hd S = CHR ''-'') then tl S else S);
          hex = (2 \<le> length S1 \<and> (take 2 S1 = ''0x'' \<or> take 2 S1 = ''0X''));
          R = (if hex then 16 else 10);
          S2 = (if hex then drop 2 S1 else S1);
          Z = takeWhile (if hex then isHexDigit else isDigit) S2
      in if Z = [] then None else Some (sign * int (radixValue R Z)))"

text \<open>
  The result of \<^verbatim>\<open>parseFloat\<close> is a double or \<^verbatim>\<open>NaN\<close>. The function itself is a parameter
  of the model: what is proved holds whatever \<^verbatim>\<open>parseFloat\<close> returns.
\<close>

datatype js_number = NaN | Finite rat | PosInfinity | NegInfinity

definition lessEqualZero :: "js_number \<Rightarrow> bool" where
  "lessEqualZero x = (case x of Finite r \<Rightarrow> r \<le> 0 | NegInfinity \<Rightarrow> True | _ \<Rightarrow> False)"

text \<open>
  \<^verbatim>\<open>EditRaffleBottomSheet\<close>: the state of the form, the alerts of \<^verbatim>\<open>handleSave\<close> and the
  object it passes to \<^verbatim>\<open>onSave\<close>, where \<open>None\<close> is \<^verbatim>\<open>null\<close> for \<open>description\<close> and
  \<open>image_url\<close>, and an absent field for \<open>max_ticket_digits\<close>.
\<close>

record form =
  form_title :: string
  form_description :: string
  form_ticketPrice :: string
  form_status :: raffle_status
  form_maxDigits :: string
  form_imageBase64 :: string

datatype save_alert =
    TitleRequired
  | ValidPriceRequired
  | PriceNotPositive
  | ValidMaxDigitsRequired
  | MaxDigitsOutOfRange

record raffle_data =
  title :: string
  description :: "string option"
  ticket_price :: js_number
  status :: raffle_status
  image_url :: "string option"
  max_ticket_digits :: "int option option"

text \<open>
  \<^verbatim>\<open>handleSave\<close> up to the call \<^verbatim>\<open>onSave(raffleData)\<close>: \<open>Inl\<close> is the alert of the check
  that returns early, \<open>Inr\<close> the object passed to \<^verbatim>\<open>onSave\<close>. The prop \<open>raffle\<close> is \<open>None\<close>
  when a raffle is being created. A comparison with \<^verbatim>\<open>NaN\<close> is false.
\<close>

definition handleSave ::
    "(string \<Rightarrow> js_number) \<Rightarrow> form \<Rightarrow> raffle option \<Rightarrow> save_alert + raffle_data" where
  "handleSave parseFloat f raffle =
     (if trim (form_title f) = [] then Inl TitleRequired
      else if trim (form_ticketPrice f) = [] \<or> parseFloat (form_ticketPrice f) = NaN
      then Inl ValidPriceRequired
      else
        (let price = parseFloat (form_ticketPrice f)
         in if lessEqualZero price then Inl PriceNotPositive
            else if raffle = None \<and>
                    (trim (form_maxDigits f) = [] \<or> parseInt (form_maxDigits f) = None)
            then Inl ValidMaxDigitsRequired
            else
              (let digits = parseInt (form_maxDigits f)
               in if raffle = None \<and>
                     (case digits of None \<Rightarrow> False | Some n \<Rightarrow> n < 1 \<or> n > 10)
                  then Inl MaxDigitsOutOfRange
                  else Inr \<lparr>title = trim (form_title f),
                           description =
                             (if trim (form_description f) = [] then None
                              else Some (trim (form_description f))),
                           ticket_price = price,
                           status = form_status f,
                           image_url =
                             (if form_imageBase64 f = [] then None
                              else Some (form_imageBase64 f)),
                           max_ticket_digits =
                             (case raffle of Some _ \<Rightarrow> None | None \<Rightarrow> Some digits)\<rparr>)))"

section \<open>Sample values\<close>

text \<open>Concrete props and sheets, for the instances the theorems are checked on.\<close>

abbreviation sample_submission :: submission where
  "sample_submission \<equiv>
     \<lparr>submission_id = ''s1'', ticket_quantity = 2, submission_status = Pending\<rparr>"

abbreviation sample_props :: "string list \<Rightarrow> sheet_props" where
  "sample_props existing \<equiv>
     \<lparr>submission = Some sample_submission, raffleMaxDigits = 3,
      existingTicketNumbers = existing\<rparr>"

abbreviation sample_sheet :: "string list \<Rightarrow> string \<Rightarrow> query list \<Rightarrow> sheet" where
  "sample_sheet numbers note qs \<equiv>
     \<lparr>ticketNumbers = numbers, rejectionNote = note, isApproving = False, isRejecting = False,
      alerts = [], requests = [], queries = qs, onCloseCalls = 0\<rparr>"

abbreviation sample_raffle :: "string \<Rightarrow> raffle_status \<Rightarrow> string \<Rightarrow> raffle" where
  "sample_raffle i st created \<equiv>
     \<lparr>raffle_id = i, raffle_title = ''Raffle'', raffle_max_ticket_digits = 3,
      raffle_status = st, created_at = created\<rparr>"


abbreviation sample_form :: "string \<Rightarrow> form" where
  "sample_form digits \<equiv>
     \<lparr>form_title = ''Spring raffle'', form_description = [], form_ticketPrice = ''5'',
      form_status = Draft, form_maxDigits = digits, form_imageBase64 = []\<rparr>"

abbreviation sample_parseFloat :: "string \<Rightarrow> js_number" where
  "sample_parseFloat \<equiv> (\<lambda>s. if s = ''5'' then Finite 5 else NaN)"

section \<open>Properties of the generator\<close>

lemma toString_lt10: "n < 10 \<Longrightarrow> toString n = [digit_char n]"
  by (simp add: toString.simps)

lemma toString_ge10: "10 \<le> n \<Longrightarrow> toString n = toString (n div 10) @ [digit_char (n mod 10)]"
  by (subst toString.simps) simp

lemma isDigit_digit_char: "n < 10 \<Longrightarrow> isDigit (digit_char n)"
  by (simp add: isDigit_def digit_char_def nth_Cons' )

lemma toString_digits: "list_all isDigit (toString n)"
proof (induction n rule: toString.induct)
  case (1 n)
  show ?case
  proof (cases "n < 10")
    case True
    then show ?thesis by (simp add: toString_lt10 isDigit_digit_char)
  next
    case False
    then have "list_all isDigit (toString (n div 10))" using 1 by simp
    moreover have "isDigit (digit_char (n mod 10))" by (simp add: isDigit_digit_char)
    ultimately show ?thesis using False by (simp add: toString_ge10)
  qed
qed

lemma length_toString: "0 < d \<Longrightarrow> n < 10 ^ d \<Longrightarrow> length (toString n) \<le> d"
proof (induction d arbitrary: n)
  case 0
  then show ?case by simp
next
  case (Suc d)
  show ?case
  proof (cases "n < 10")
    case True
    then show ?thesis by (simp add: toString_lt10)
  next
    case False
    then have d: "0 < d" using Suc.prems by (cases d) auto
    have "n div 10 < 10 ^ d" using Suc.prems by (simp add: less_mult_imp_div_less mult.commute)
    then have "length (toString (n div 10)) \<le> d" using Suc.IH d by blast
    then show ?thesis using False by (simp add: toString_ge10)
  qed
qed




lemma random_number_range:
  assumes "0 \<le> r" "r < 1" "0 < d"
  shows "randomNumber_of (10 ^ d - 1) r < 10 ^ d"
proof -
  define M :: nat where "M = 10 ^ d - 1"
  have "(10::nat) ^ 1 \<le> 10 ^ d"
    using assms(3) by (intro power_increasing) auto
  then have M: "0 < M" and M1: "M + 1 = 10 ^ d"
    by (simp_all add: M_def)
  have "r * of_nat M < 1 * of_nat M"
    using assms(2) M by (intro mult_strict_right_mono) auto
  then have "\<lfloor>r * of_nat M\<rfloor> < int M"
    by (simp add: floor_less_iff)
  then have "nat \<lfloor>r * of_nat M\<rfloor> + 1 < M + 1"
    using M by linarith
  then show ?thesis
    unfolding M1 unfolding randomNumber_of_def M_def .
qed

lemma list_all_isDigit_replicate: "list_all isDigit (replicate k (CHR ''0''))"
  by (simp add: list_all_iff isDigit_def)

lemma random_ticket_valid:
  assumes "0 \<le> r" "r < 1" "0 < d"
  shows "isValid (random_ticket d r) d"
proof -
  let ?n = "randomNumber_of (10 ^ d - 1) r"
  have len: "length (toString ?n) \<le> d"
    using length_toString [OF assms(3) random_number_range [OF assms]] .
  have t: "random_ticket d r = replicate (d - length (toString ?n)) (CHR ''0'') @ toString ?n"
    by (simp add: random_ticket_def ticketNumber_of_def padStart_def Let_def)
  have "length (random_ticket d r) = d"
    unfolding t using len by simp
  moreover have "list_all isDigit (random_ticket d r)"
    unfolding t by (simp only: list_all_append list_all_isDigit_replicate toString_digits)
  ultimately show ?thesis
    by (simp add: isValid_def)
qed

lemma generate_loop_sound:
  assumes "generate_loop c d ex numbers rs = Some out"
    and "length numbers \<le> c" and "distinct numbers"
    and "set numbers \<inter> set ex = {}"
    and "\<forall>s \<in> set numbers. P s"
    and "\<forall>r \<in> set rs. P (random_ticket d r)"
  shows "length out = c \<and> distinct out \<and> set out \<inter> set ex = {} \<and> (\<forall>s \<in> set out. P s)"
  using assms
proof (induction rs arbitrary: numbers)
  case Nil
  then show ?case by (auto split: if_splits)
next
  case (Cons r rs)
  show ?case
  proof (cases "length numbers < c")
    case False
    then show ?thesis using Cons.prems by auto
  next
    case True
    let ?t = "random_ticket d r"
    show ?thesis
    proof (cases "?t \<notin> set ex \<and> ?t \<notin> set numbers")
      case fresh: True
      then have "generate_loop c d ex (numbers @ [?t]) rs = Some out"
        using Cons.prems(1) True by (simp add: Let_def)
      moreover have "length (numbers @ [?t]) \<le> c" using True by simp
      moreover have "distinct (numbers @ [?t])" using fresh Cons.prems(3) by simp
      moreover have "set (numbers @ [?t]) \<inter> set ex = {}" using fresh Cons.prems(4) by auto
      moreover have "\<forall>s \<in> set (numbers @ [?t]). P s" using Cons.prems(5,6) by auto
      moreover have "\<forall>r \<in> set rs. P (random_ticket d r)" using Cons.prems(6) by simp
      ultimately show ?thesis by (rule Cons.IH)
    next
      case False
      then have "generate_loop c d ex numbers rs = Some out"
        using Cons.prems(1) True by (auto simp: Let_def)
      moreover have "\<forall>r \<in> set rs. P (random_ticket d r)" using Cons.prems(6) by simp
      ultimately show ?thesis using Cons.prems(2-5) by (intro Cons.IH)
    qed
  qed
qed



lemma digit_char_value: "n < 10 \<Longrightarrow> (of_char (digit_char n) :: nat) - 48 = n"
proof -
  assume "n < 10"
  then consider "n = 0" | "n = 1" | "n = 2" | "n = 3" | "n = 4" | "n = 5" | "n = 6" | "n = 7" | "n = 8" | "n = 9"
    by atomize_elim presburger
  then show ?thesis
    by cases (simp_all add: digit_char_def)
qed

lemma decimal_value_append:
  "decimal_value (s @ [c]) = 10 * decimal_value s + (of_char c - 48)"
  by (simp add: decimal_value_def)

lemma decimal_value_toString: "decimal_value (toString n) = n"
proof (induction n rule: toString.induct)
  case (1 n)
  show ?case
  proof (cases "n < 10")
    case True
    then show ?thesis by (simp add: toString_lt10 decimal_value_def digit_char_value)
  next
    case False
    then have "decimal_value (toString (n div 10)) = n div 10" using 1 by simp
    then show ?thesis using False by (simp add: toString_ge10 decimal_value_append digit_char_value)
  qed
qed

lemma foldl_decimal_zeros:
  "foldl (\<lambda>acc c. 10 * acc + ((of_char c :: nat) - 48)) 0 (replicate k (CHR ''0'')) = 0"
  by (induction k) simp_all


lemma decimal_value_ticketNumber: "decimal_value (ticketNumber_of n d) = n"
  using decimal_value_toString [of n]
  by (simp add: ticketNumber_of_def padStart_def decimal_value_def foldl_decimal_zeros)



lemma randomNumber_at:
  assumes "0 < m" "1 \<le> v" "v \<le> m"
  shows "randomNumber_of m (of_nat (v - 1) / of_nat m) = v"
  using assms by (simp add: randomNumber_of_def)


lemma valid_strings_eq: "{s. isValid s d} = {xs. set xs \<subseteq> set ''0123456789'' \<and> length xs = d}"
  unfolding isValid_def list_all_iff isDigit_def by blast

lemma finite_valid_strings: "finite {s. isValid s d}"
  unfolding valid_strings_eq by (rule finite_lists_length_eq) simp

lemma card_valid_strings: "card {s. isValid s d} = 10 ^ d"
proof -
  have c10: "card (set ''0123456789'') = 10"
    by (subst distinct_card) simp_all
  have "card {xs. set xs \<subseteq> set ''0123456789'' \<and> length xs = d} = card (set ''0123456789'') ^ d"
    by (rule card_lists_length_eq) (rule finite_set)
  then show ?thesis
    by (simp only: c10 valid_strings_eq)
qed

lemma generate_loop_exhausted:
  assumes "1 \<le> d" and "distinct issued" and "\<forall>s \<in> set issued. isValid s d"
    and "10 ^ d < c + length issued" and "unit_draws rs"
  shows "generate_loop c d issued [] rs = None"
proof (rule ccontr)
  assume "generate_loop c d issued [] rs \<noteq> None"
  then obtain out where out: "generate_loop c d issued [] rs = Some out"
    by auto
  have draws: "\<forall>r \<in> set rs. isValid (random_ticket d r) d"
    using assms(1,5) by (auto simp: unit_draws_def list_all_iff intro: random_ticket_valid)
  have snd: "length out = c \<and> distinct out \<and> set out \<inter> set issued = {} \<and>
        (\<forall>s \<in> set out. isValid s d)"
    using generate_loop_sound [where P = "\<lambda>s. isValid s d" and numbers = "[]", OF out _ _ _ _ draws]
    by simp
  then have "distinct (out @ issued)"
    using assms(2) by auto
  then have "card (set (out @ issued)) = c + length issued"
    using snd by (simp add: distinct_card del: set_append)
  moreover have "set (out @ issued) \<subseteq> {s. isValid s d}"
    using snd assms(3) by auto
  then have "card (set (out @ issued)) \<le> card {s. isValid s d}"
    by (rule card_mono [OF finite_valid_strings])
  then have "card (set (out @ issued)) \<le> 10 ^ d"
    by (simp only: card_valid_strings)
  ultimately show False
    using assms(4) by simp
qed

text \<open>
  Claim C2 (as amended). The source has no exhaustion check and raises no error. When the
  issued numbers are pairwise distinct strings of exactly \<open>d\<close> decimal digits
  (\<open>d \<ge> 1\<close>) and \<open>count + |issued| > 10 ^ d\<close>, the call never returns: whatever
  values \<^verbatim>\<open>Math.random()\<close> supplies, the loop is still running after them.
\<close>

theorem generate_exhausted_never_returns:
  assumes "1 \<le> d" and "distinct issued" and "\<forall>s \<in> set issued. isValid s d"
    and "10 ^ d < c + length issued" and "unit_draws rs"
  shows "generateRandomTicketNumbers c d issued rs = None"
  unfolding generateRandomTicketNumbers_def using assms by (rule generate_loop_exhausted)

lemma ten_digits_valid:
  "\<forall>s \<in> set [''0'', ''2'', ''4'', ''6'', ''8'', ''1'', ''3'', ''5'', ''7'', ''9'']. isValid s 1"
  by (simp add: isValid_def isDigit_def)

theorem generate_exhausted_never_returns_witness:
  "unit_draws [0, 4/9, 8/9] \<and>
   generateRandomTicketNumbers 1 1 [''0'', ''2'', ''4'', ''6'', ''8'', ''1'', ''3'', ''5'', ''7'', ''9'']
     [0, 4/9, 8/9] = None"
proof -
  have draws: "unit_draws [0, 4/9, 8/9]"
    by (simp add: unit_draws_def)
  show ?thesis
    using generate_exhausted_never_returns [of 1 _ 1, OF _ _ ten_digits_valid _ draws] draws
    by simp
qed

text \<open>The claim as stated fails: with all ten one-digit numbers issued and one more
  requested, no error is ever reported.\<close>

theorem full_space_never_reports:
  "\<not> (\<exists>rs. unit_draws rs \<and>
     generateRandomTicketNumbers 1 1 [''0'', ''2'', ''4'', ''6'', ''8'', ''1'', ''3'', ''5'', ''7'', ''9''] rs \<noteq> None)"
proof -
  have "generate_loop 1 1 [''0'', ''2'', ''4'', ''6'', ''8'', ''1'', ''3'', ''5'', ''7'', ''9''] [] rs = None"
    if "unit_draws rs" for rs
    using generate_loop_exhausted [of 1 _ 1, OF _ _ ten_digits_valid _ that] by simp
  then show ?thesis
    by (auto simp: generateRandomTicketNumbers_def)
qed


lemma max_ge9: "1 \<le> d \<Longrightarrow> (9::nat) \<le> 10 ^ d - 1"
proof -
  assume "1 \<le> d"
  then have "(10::nat) ^ 1 \<le> 10 ^ d"
    by (intro power_increasing) auto
  then show ?thesis by simp
qed


lemma draw_point_unit:
  assumes "1 \<le> v" and "v \<le> m"
  shows "(0::rat) \<le> of_nat (v - 1) / of_nat m \<and> of_nat (v - 1) / of_nat m < (1::rat)"
proof -
  have "(of_nat (v - 1) :: rat) < of_nat m"
    using assms by (simp del: of_nat_diff)
  moreover have "(0::rat) < of_nat m" using assms by simp
  ultimately show ?thesis by simp
qed







text \<open>
  The generator does return when enough free values are drawn: for pairwise distinct values
  of \<open>[1, 10 ^ d - 1]\<close> whose tickets are not issued, there are values of
  \<^verbatim>\<open>Math.random()\<close> under which exactly their tickets are returned, in that order.
\<close>

lemma ticketNumber_inj: "ticketNumber_of v d = ticketNumber_of v' d \<Longrightarrow> v = v'"
  using decimal_value_ticketNumber by metis

lemma random_ticket_at:
  assumes "1 \<le> d" and "1 \<le> v" and "v \<le> 10 ^ d - 1"
  shows "random_ticket d (of_nat (v - 1) / of_nat (10 ^ d - 1)) = ticketNumber_of v d"
proof -
  have m: "0 < (10::nat) ^ d - 1" using max_ge9 [OF assms(1)] by linarith
  show ?thesis
    unfolding random_ticket_def Let_def using randomNumber_at [OF m assms(2,3)] by simp
qed

lemma generate_loop_accepts:
  assumes "1 \<le> d" and "\<forall>v \<in> set vs. 1 \<le> v \<and> v \<le> 10 ^ d - 1" and "distinct vs"
    and "\<forall>v \<in> set vs. ticketNumber_of v d \<notin> set issued \<union> set numbers"
    and "length numbers + length vs = c"
  shows "generate_loop c d issued numbers (map (\<lambda>v. of_nat (v - 1) / of_nat (10 ^ d - 1)) vs) =
           Some (numbers @ map (\<lambda>v. ticketNumber_of v d) vs)"
  using assms(2-5)
proof (induction vs arbitrary: numbers)
  case Nil
  then show ?case by simp
next
  case (Cons v vs)
  let ?t = "ticketNumber_of v d"
  have t: "random_ticket d (of_nat (v - 1) / of_nat (10 ^ d - 1)) = ?t"
    using random_ticket_at [OF assms(1)] Cons.prems(1) by simp
  have fresh: "?t \<notin> set issued \<and> ?t \<notin> set numbers"
    using Cons.prems(3) by simp
  have lt: "length numbers < c"
    using Cons.prems(4) by simp
  have "\<forall>v' \<in> set vs. ticketNumber_of v' d \<noteq> ?t"
    using Cons.prems(2) ticketNumber_inj by fastforce
  then have "\<forall>v' \<in> set vs. ticketNumber_of v' d \<notin> set issued \<union> set (numbers @ [?t])"
    using Cons.prems(3) by simp
  then have "generate_loop c d issued (numbers @ [?t]) (map (\<lambda>v. of_nat (v - 1) / of_nat (10 ^ d - 1)) vs) =
           Some ((numbers @ [?t]) @ map (\<lambda>v. ticketNumber_of v d) vs)"
    using Cons.prems by (intro Cons.IH) simp_all
  then show ?case
    using t fresh lt by (simp add: Let_def)
qed

lemma generate_returns_for_free_values:
  assumes "1 \<le> d" and "\<forall>v \<in> set vs. 1 \<le> v \<and> v \<le> 10 ^ d - 1" and "distinct vs"
    and "\<forall>v \<in> set vs. ticketNumber_of v d \<notin> set issued"
  shows "\<exists>rs. unit_draws rs \<and>
           generateRandomTicketNumbers (length vs) d issued rs = Some (map (\<lambda>v. ticketNumber_of v d) vs)"
proof -
  let ?rs = "map (\<lambda>v. of_nat (v - 1) / of_nat (10 ^ d - 1) :: rat) vs"
  have "\<forall>v \<in> set vs. (0::rat) \<le> of_nat (v - 1) / of_nat (10 ^ d - 1) \<and>
      of_nat (v - 1) / of_nat (10 ^ d - 1) < (1::rat)"
  proof
    fix v assume "v \<in> set vs"
    then have "1 \<le> v" "v \<le> 10 ^ d - 1" using assms(2) by simp_all
    then show "(0::rat) \<le> of_nat (v - 1) / of_nat (10 ^ d - 1) \<and>
      of_nat (v - 1) / of_nat (10 ^ d - 1) < (1::rat)"
      by (rule draw_point_unit)
  qed
  then have "unit_draws ?rs"
    unfolding unit_draws_def list_all_iff set_map by blast
  moreover have "generateRandomTicketNumbers (length vs) d issued ?rs =
      Some (map (\<lambda>v. ticketNumber_of v d) vs)"
    unfolding generateRandomTicketNumbers_def
    using generate_loop_accepts [OF assms(1-3), of issued "[]" "length vs"] assms(4) by simp
  ultimately show ?thesis by blast
qed

section \<open>Properties of the generator in double precision\<close>

lemma bitLength_0: "bitLength 0 = 0"
  by (simp add: bitLength.simps)

lemma bitLength_pos: "0 < n \<Longrightarrow> bitLength n = Suc (bitLength (n div 2))"
  by (subst bitLength.simps) simp

lemma bitLength_upper: "n < 2 ^ bitLength n"
proof (induction n rule: bitLength.induct)
  case (1 n)
  show ?case
  proof (cases "n = 0")
    case True
    then show ?thesis by (simp add: bitLength_0)
  next
    case False
    then have "n div 2 < 2 ^ bitLength (n div 2)" using 1 by simp
    then have "n < 2 * 2 ^ bitLength (n div 2)" by linarith
    then show ?thesis using False by (simp add: bitLength_pos)
  qed
qed

lemma bitLength_lower: "0 < n \<Longrightarrow> 2 ^ (bitLength n - 1) \<le> n"
proof (induction n rule: bitLength.induct)
  case (1 n)
  show ?case
  proof (cases "n div 2 = 0")
    case True
    then have "bitLength n = 1" using "1.prems" by (simp add: bitLength_pos bitLength_0)
    then show ?thesis using "1.prems" by simp
  next
    case False
    then have "2 ^ (bitLength (n div 2) - 1) \<le> n div 2" using 1 by simp
    moreover have "0 < bitLength (n div 2)" using False by (simp add: bitLength_pos)
    ultimately have "2 ^ bitLength (n div 2) \<le> 2 * (n div 2)"
      by (cases "bitLength (n div 2)") simp_all
    then have "2 ^ bitLength (n div 2) \<le> n" by linarith
    then show ?thesis using "1.prems" by (simp add: bitLength_pos)
  qed
qed



lemma floorLog2_ge1:
  assumes "1 \<le> x"
  shows "0 \<le> floorLog2 x" and "(2::rat) ^ nat (floorLog2 x) \<le> x"
proof -
  let ?n = "nat \<lfloor>x\<rfloor>"
  have fl: "1 \<le> \<lfloor>x\<rfloor>" using assms by simp
  then have n: "0 < ?n" by simp
  then have bl: "0 < bitLength ?n" by (simp add: bitLength_pos)
  have e: "floorLog2 x = int (bitLength ?n) - 1"
    using assms by (simp add: floorLog2_def)
  show "0 \<le> floorLog2 x" using bl e by simp
  have ne: "nat (floorLog2 x) = bitLength ?n - 1" using e bl by simp
  have "2 ^ (bitLength ?n - 1) \<le> ?n" using n by (rule bitLength_lower)
  then have "(of_nat (2 ^ (bitLength ?n - 1)) :: rat) \<le> of_nat ?n"
    by (simp only: of_nat_le_iff)
  then have "(2::rat) ^ (bitLength ?n - 1) \<le> of_nat ?n" by simp
  also have "(of_nat ?n :: rat) = of_int \<lfloor>x\<rfloor>" using fl by simp
  also have "\<dots> \<le> x" by (rule of_int_floor_le)
  finally show "(2::rat) ^ nat (floorLog2 x) \<le> x" by (simp only: ne)
qed

lemma floorLog2_lt1: "x < 1 \<Longrightarrow> floorLog2 x \<le> 0"
  by (simp add: floorLog2_def)

lemma roundHalfEven_cases:
  "roundHalfEven q = \<lfloor>q\<rfloor> \<or> (roundHalfEven q = \<lfloor>q\<rfloor> + 1 \<and> of_int \<lfloor>q\<rfloor> + 1 / 2 \<le> q)"
  by (auto simp: roundHalfEven_def Let_def)

lemma roundHalfEven_ge:
  assumes "of_int a \<le> q"
  shows "a \<le> roundHalfEven q"
proof -
  have "a \<le> \<lfloor>q\<rfloor>" using assms by (simp add: le_floor_iff)
  then show ?thesis using roundHalfEven_cases [of q] by linarith
qed

lemma roundHalfEven_le:
  assumes "q \<le> of_int b"
  shows "roundHalfEven q \<le> b"
proof -
  have f: "\<lfloor>q\<rfloor> \<le> b" using assms by (simp add: floor_le_iff) 
  show ?thesis
  proof (cases "roundHalfEven q = \<lfloor>q\<rfloor>")
    case True
    then show ?thesis using f by simp
  next
    case False
    then have r: "roundHalfEven q = \<lfloor>q\<rfloor> + 1" and h: "of_int \<lfloor>q\<rfloor> + 1 / 2 \<le> q"
      using roundHalfEven_cases [of q] by auto
    have "(of_int \<lfloor>q\<rfloor> :: rat) < of_int b" using h assms by linarith
    then have "\<lfloor>q\<rfloor> < b" by simp
    then show ?thesis using r by simp
  qed
qed

lemma roundHalfEven_less:
  assumes "q < of_int b - 1 / 2"
  shows "roundHalfEven q < b"
proof (cases "roundHalfEven q = \<lfloor>q\<rfloor>")
  case True
  have "(of_int \<lfloor>q\<rfloor> :: rat) \<le> q" by (rule of_int_floor_le)
  then have "(of_int \<lfloor>q\<rfloor> :: rat) < of_int b" using assms by linarith
  then show ?thesis using True by simp
next
  case False
  then have r: "roundHalfEven q = \<lfloor>q\<rfloor> + 1" and h: "of_int \<lfloor>q\<rfloor> + 1 / 2 \<le> q"
    using roundHalfEven_cases [of q] by auto
  have "(of_int (\<lfloor>q\<rfloor> + 1) :: rat) < of_int b" using h assms by simp
  then have "\<lfloor>q\<rfloor> + 1 < b" by (simp only: of_int_less_iff)
  then show ?thesis using r by simp
qed

lemma roundHalfEven_of_int: "roundHalfEven (of_int k) = k"
  by (simp add: roundHalfEven_def)

lemma exponent_small:
  assumes "0 < x" and "x < 2 ^ 53"
  shows "max (floorLog2 x) (- 1022) \<le> 52"
proof (cases "1 \<le> x")
  case True
  have lt: "(2::rat) ^ nat (floorLog2 x) < 2 ^ 53"
    using floorLog2_ge1(2) [OF True] assms(2) by linarith
  have "nat (floorLog2 x) < 53"
    using power_less_imp_less_exp [OF _ lt] by simp
  then show ?thesis by simp
next
  case False
  then have "floorLog2 x \<le> 0" by (simp add: floorLog2_lt1)
  then show ?thesis by simp
qed

lemma roundDouble_small:
  assumes "0 < x" and "x < 2 ^ 53"
  shows "roundDouble x =
           of_int (roundHalfEven (x * 2 ^ nat (52 - max (floorLog2 x) (- 1022)))) /
             2 ^ nat (52 - max (floorLog2 x) (- 1022))"
  using assms exponent_small [OF assms] by (simp add: roundDouble_def Let_def)

lemma roundDouble_between:
  assumes "0 < x" and "x < 2 ^ 53"
  shows "of_int \<lfloor>x\<rfloor> \<le> roundDouble x"
    and "roundDouble x \<le> of_int \<lfloor>x\<rfloor> + 1"
    and "x < of_int \<lfloor>x\<rfloor> + 1 - 1 / 2 ^ (nat (52 - max (floorLog2 x) (- 1022)) + 1) \<Longrightarrow>
           roundDouble x < of_int \<lfloor>x\<rfloor> + 1"
proof -
  define j where "j = nat (52 - max (floorLog2 x) (- 1022))"
  define P :: rat where "P = 2 ^ j"
  have P: "0 < P" by (simp add: P_def)
  have rd: "roundDouble x = of_int (roundHalfEven (x * P)) / P"
    unfolding P_def j_def by (rule roundDouble_small [OF assms])
  have Pi: "P = of_int (2 ^ j)" by (simp add: P_def)
  have "of_int (\<lfloor>x\<rfloor> * 2 ^ j) \<le> x * P"
    using P by (simp add: Pi)
  then have "\<lfloor>x\<rfloor> * 2 ^ j \<le> roundHalfEven (x * P)" by (rule roundHalfEven_ge)
  then have "(of_int (\<lfloor>x\<rfloor> * 2 ^ j) :: rat) \<le> of_int (roundHalfEven (x * P))"
    by (simp only: of_int_le_iff)
  then have "of_int \<lfloor>x\<rfloor> * P \<le> of_int (roundHalfEven (x * P))"
    by (simp add: Pi)
  then show "of_int \<lfloor>x\<rfloor> \<le> roundDouble x"
    unfolding rd using P by (simp add: pos_le_divide_eq)
  have "x \<le> of_int \<lfloor>x\<rfloor> + 1" by linarith
  then have "x * P \<le> (of_int \<lfloor>x\<rfloor> + 1) * P"
    using P by (simp add: mult_right_mono)
  then have "x * P \<le> of_int ((\<lfloor>x\<rfloor> + 1) * 2 ^ j)" by (simp add: Pi)
  then have "roundHalfEven (x * P) \<le> (\<lfloor>x\<rfloor> + 1) * 2 ^ j" by (rule roundHalfEven_le)
  then have "(of_int (roundHalfEven (x * P)) :: rat) \<le> of_int ((\<lfloor>x\<rfloor> + 1) * 2 ^ j)"
    by (simp only: of_int_le_iff)
  then have "of_int (roundHalfEven (x * P)) \<le> (of_int \<lfloor>x\<rfloor> + 1) * P"
    by (simp add: Pi)
  then show "roundDouble x \<le> of_int \<lfloor>x\<rfloor> + 1"
    unfolding rd using P by (simp add: pos_divide_le_eq)
  assume "x < of_int \<lfloor>x\<rfloor> + 1 - 1 / 2 ^ (nat (52 - max (floorLog2 x) (- 1022)) + 1)"
  then have "x < of_int \<lfloor>x\<rfloor> + 1 - 1 / (2 * P)"
    by (simp add: P_def j_def)
  then have "x * P < (of_int \<lfloor>x\<rfloor> + 1 - 1 / (2 * P)) * P"
    using P by (simp add: mult_strict_right_mono)
  also have "\<dots> = (of_int \<lfloor>x\<rfloor> + 1) * P - 1 / 2"
    using P by (simp add: algebra_simps)
  finally have "x * P < of_int ((\<lfloor>x\<rfloor> + 1) * 2 ^ j) - 1 / 2" by (simp add: Pi)
  then have "roundHalfEven (x * P) < (\<lfloor>x\<rfloor> + 1) * 2 ^ j" by (rule roundHalfEven_less)
  then have "(of_int (roundHalfEven (x * P)) :: rat) < of_int ((\<lfloor>x\<rfloor> + 1) * 2 ^ j)"
    by (simp only: of_int_less_iff)
  then have "of_int (roundHalfEven (x * P)) < (of_int \<lfloor>x\<rfloor> + 1) * P"
    by (simp add: Pi)
  then show "roundDouble x < of_int \<lfloor>x\<rfloor> + 1"
    unfolding rd using P by (simp add: pos_divide_less_eq)
qed

lemma roundDouble_of_nat:
  assumes "n < 2 ^ 53"
  shows "roundDouble (of_nat n) = of_nat n"
proof (cases "n = 0")
  case True
  then show ?thesis by (simp add: roundDouble_def)
next
  case False
  define j where "j = nat (52 - max (floorLog2 (of_nat n)) (- 1022))"
  have pos: "(0::rat) < of_nat n" using False by simp
  have lt: "(of_nat n :: rat) < 2 ^ 53"
    using assms by (metis of_nat_less_iff of_nat_numeral of_nat_power)
  have "roundDouble (of_nat n) = of_int (roundHalfEven (of_nat n * 2 ^ j)) / 2 ^ j"
    unfolding j_def by (rule roundDouble_small [OF pos lt])
  also have "(of_nat n * 2 ^ j :: rat) = of_int (int n * 2 ^ j)" by simp
  also have "roundHalfEven (of_int (int n * 2 ^ j)) = int n * 2 ^ j"
    by (rule roundHalfEven_of_int)
  also have "(of_int (int n * 2 ^ j) :: rat) / 2 ^ j = of_nat n" by simp
  finally show ?thesis .
qed

lemma scaled_draw_bound:
  fixes r m p :: rat
  assumes "0 < m" and "0 < p" and "r \<le> 1 - 1 / p"
  shows "r * m \<le> m - m / p" and "r * m < m"
proof -
  have "r * m \<le> (1 - 1 / p) * m"
    using assms(1,3) by (intro mult_right_mono) simp_all
  also have "\<dots> = m - m / p" by (simp add: left_diff_distrib)
  finally show "r * m \<le> m - m / p" .
  moreover have "0 < m / p" using assms(1,2) by simp
  ultimately show "r * m < m" by linarith
qed

lemma half_ulp_bound:
  fixes x m :: rat and e :: nat
  assumes "e \<le> 52" and "2 ^ e \<le> x" and "x < m" and "x \<le> m - m / 2 ^ 53"
  shows "x + 1 / 2 ^ (53 - e) < m"
proof -
  have "(2::rat) ^ (53 - e) * 2 ^ e = 2 ^ 53"
    using assms(1) by (simp only: power_add [symmetric]) simp
  then have "(2::rat) ^ e / 2 ^ 53 = 2 ^ e / (2 ^ (53 - e) * 2 ^ e)"
    by (simp only:)
  also have "\<dots> = 1 / 2 ^ (53 - e)"
    by (simp only: divide_divide_eq_left [symmetric]) simp
  finally have "1 / (2::rat) ^ (53 - e) = 2 ^ e / 2 ^ 53" by (rule sym)
  also have "\<dots> \<le> x / 2 ^ 53"
    using assms(2) by (intro divide_right_mono) simp_all
  also have "\<dots> < m / 2 ^ 53"
    using assms(3) by (intro divide_strict_right_mono) simp_all
  finally show ?thesis using assms(4) by linarith
qed

lemma int_succ_eq:
  fixes a b :: int
  shows "a < b \<Longrightarrow> \<not> a + 1 < b \<Longrightarrow> a + 1 = b"
  by arith

lemma floor_roundDouble_low:
  assumes x0: "0 < x" and x53: "x < 2 ^ 53"
  shows "0 \<le> \<lfloor>roundDouble x\<rfloor>" and "\<lfloor>roundDouble x\<rfloor> \<le> \<lfloor>x\<rfloor> + 1"
proof -
  note b = roundDouble_between [OF x0 x53]
  have "0 \<le> \<lfloor>x\<rfloor>" using x0 by (simp only: zero_le_floor less_imp_le)
  then have "(0::rat) \<le> of_int \<lfloor>x\<rfloor>" by (simp only: of_int_0_le_iff)
  then have "0 \<le> roundDouble x" using b(1) by (rule order_trans)
  then show "0 \<le> \<lfloor>roundDouble x\<rfloor>" by (simp only: zero_le_floor)
  have "roundDouble x \<le> of_int \<lfloor>x\<rfloor> + 1" by (rule b(2))
  then have "roundDouble x \<le> of_int (\<lfloor>x\<rfloor> + 1)" by (simp only: of_int_add of_int_1)
  then have "\<lfloor>roundDouble x\<rfloor> \<le> \<lfloor>(of_int (\<lfloor>x\<rfloor> + 1) :: rat)\<rfloor>" by (rule floor_mono)
  then show "\<lfloor>roundDouble x\<rfloor> \<le> \<lfloor>x\<rfloor> + 1" by (simp only: floor_of_int)
qed

lemma floor_roundDouble_top:
  fixes M :: nat and x :: rat
  assumes x0: "0 < x" and x53: "x < 2 ^ 53" and xltM: "x < of_nat M"
    and xM: "x \<le> of_nat M - of_nat M / 2 ^ 53" and M2: "(2::rat) \<le> of_nat M"
    and top: "\<lfloor>x\<rfloor> + 1 = int M"
  shows "\<lfloor>roundDouble x\<rfloor> < int M"
proof -
  note b = roundDouble_between [OF x0 x53]
  have fx: "(of_int \<lfloor>x\<rfloor> :: rat) + 1 = of_nat M"
    using arg_cong [OF top, of "of_int :: int \<Rightarrow> rat"] by simp
  then have xge: "of_nat M - 1 \<le> x" using of_int_floor_le [of x] by linarith
  then have x1: "1 \<le> x" using M2 by linarith
  have e0: "0 \<le> floorLog2 x" and pw: "(2::rat) ^ nat (floorLog2 x) \<le> x"
    using floorLog2_ge1 [OF x1] by blast+
  have e52: "floorLog2 x \<le> 52" using exponent_small [OF x0 x53] by simp
  define e where "e = nat (floorLog2 x)"
  have e_le: "e \<le> 52" using e52 e0 by (simp add: e_def)
  have pw': "(2::rat) ^ e \<le> x" using pw by (simp only: e_def)
  have j: "nat (52 - max (floorLog2 x) (- 1022)) + 1 = 53 - e"
    using e0 e52 by (simp add: e_def max_def)
  have "x + 1 / 2 ^ (53 - e) < of_nat M"
    using half_ulp_bound [OF e_le pw' xltM xM] .
  then have "x < of_int \<lfloor>x\<rfloor> + 1 - 1 / 2 ^ (nat (52 - max (floorLog2 x) (- 1022)) + 1)"
    unfolding j fx by linarith
  then have "roundDouble x < of_int \<lfloor>x\<rfloor> + 1" by (rule b(3))
  then have "roundDouble x < of_int (int M)" unfolding fx by simp
  then show ?thesis by (simp only: floor_less_iff)
qed

lemma floor_roundDouble_product:
  fixes M :: nat and r :: rat
  assumes "2 \<le> M" and "M < 2 ^ 53" and "0 \<le> r" and "r \<le> 1 - 1 / 2 ^ 53"
  shows "0 \<le> \<lfloor>roundDouble (r * of_nat M)\<rfloor> \<and> \<lfloor>roundDouble (r * of_nat M)\<rfloor> < int M"
proof (cases "r * of_nat M = 0")
  case True
  have "roundDouble 0 = 0" by (simp add: roundDouble_def)
  then show ?thesis using assms(1) unfolding True by simp
next
  case False
  define x where "x = r * of_nat M"
  have Mpos: "(0::rat) < of_nat M" using assms(1) by simp
  have M2: "(2::rat) \<le> of_nat M"
    using assms(1) by (metis of_nat_le_iff of_nat_numeral)
  have M53: "(of_nat M :: rat) < 2 ^ 53"
    using assms(2) by (metis of_nat_less_iff of_nat_numeral of_nat_power)
  have xnn: "0 \<le> x"
    unfolding x_def by (rule mult_nonneg_nonneg [OF assms(3) less_imp_le [OF Mpos]])
  have xnz: "x \<noteq> 0" unfolding x_def by (rule False)
  have x0: "0 < x" using xnn xnz by linarith
  have p: "(0::rat) < 2 ^ 53" by (rule zero_less_power) simp
  have xM: "x \<le> of_nat M - of_nat M / 2 ^ 53" and xltM: "x < of_nat M"
    unfolding x_def using scaled_draw_bound [OF Mpos p assms(4)] by blast+
  have x53: "x < 2 ^ 53" using xltM M53 by (rule less_trans)
  have fl: "\<lfloor>x\<rfloor> < int M" using xltM by (simp only: floor_less_iff of_int_of_nat_eq)
  have upper: "\<lfloor>roundDouble x\<rfloor> < int M"
  proof (cases "\<lfloor>x\<rfloor> + 1 < int M")
    case True
    show ?thesis using floor_roundDouble_low(2) [OF x0 x53] True by (rule le_less_trans)
  next
    case False
    have "\<lfloor>x\<rfloor> + 1 = int M" using fl False by (rule int_succ_eq)
    then show ?thesis by (rule floor_roundDouble_top [OF x0 x53 xltM xM M2])
  qed
  show ?thesis using floor_roundDouble_low(1) [OF x0 x53] upper by (simp only: x_def simp_thms)
qed

lemma randomNumber_double_nat:
  fixes M :: nat
  assumes "2 \<le> M" and "M < 2 ^ 53" and "0 \<le> r" and "r \<le> 1 - 1 / 2 ^ 53"
  shows "\<exists>v. randomNumber_double (of_nat M) r = of_nat v \<and> 1 \<le> v \<and> v \<le> M"
proof -
  define n where "n = \<lfloor>roundDouble (r * of_nat M)\<rfloor>"
  have n: "0 \<le> n" "n < int M"
    using floor_roundDouble_product [OF assms] by (simp_all add: n_def)
  define v where "v = nat (n + 1)"
  have v: "1 \<le> v" "v \<le> M" using n by (simp_all add: v_def)
  have "(of_int n + 1 :: rat) = of_nat v" using n by (simp add: v_def)
  moreover have "roundDouble (of_nat v) = of_nat v"
    using v(2) assms(2) by (intro roundDouble_of_nat) simp
  ultimately have "randomNumber_double (of_nat M) r = of_nat v"
    by (simp add: randomNumber_double_def n_def)
  then show ?thesis using v by blast
qed

lemma pow10_bounds:
  assumes "1 \<le> d" and "d \<le> 15"
  shows "(2::nat) \<le> 10 ^ d - 1" and "(10::nat) ^ d - 1 < 2 ^ 50"
proof -
  have "(10::nat) ^ 1 \<le> 10 ^ d" using assms(1) by (intro power_increasing) simp_all
  then show "(2::nat) \<le> 10 ^ d - 1" by simp
  have "(10::nat) ^ d \<le> 10 ^ 15" using assms(2) by (intro power_increasing) simp_all
  also have "(10::nat) ^ 15 < 2 ^ 50" by simp
  finally show "(10::nat) ^ d - 1 < 2 ^ 50" by simp
qed

lemma maxNumber_double_exact:
  assumes "1 \<le> d" and "d \<le> 15"
  shows "maxNumber_double d = of_nat (10 ^ d - 1)"
proof -
  have "(10::nat) ^ d - 1 < 2 ^ 53"
    using pow10_bounds(2) [OF assms] by simp
  then have "roundDouble (of_nat (10 ^ d - 1)) = of_nat (10 ^ d - 1)"
    by (rule roundDouble_of_nat)
  moreover have "(of_nat (10 ^ d - 1) :: rat) = 10 ^ d - 1"
    by (simp add: of_nat_diff)
  ultimately show ?thesis by (simp add: maxNumber_double_def)
qed

lemma random_ticket_double_exact:
  assumes "1 \<le> d" and "d \<le> 15" and "0 \<le> r" and "r \<le> 1 - 1 / 2 ^ 53"
  shows "\<exists>v. 1 \<le> v \<and> v \<le> 10 ^ d - 1 \<and> random_ticket_double d r = ticketNumber_of v d \<and>
             random_ticket d (of_nat (v - 1) / of_nat (10 ^ d - 1)) = ticketNumber_of v d"
proof -
  have "(10::nat) ^ d - 1 < 2 ^ 53"
    using pow10_bounds(2) [OF assms(1,2)] by simp
  then obtain v where v: "randomNumber_double (of_nat (10 ^ d - 1)) r = of_nat v"
      "1 \<le> v" "v \<le> 10 ^ d - 1"
    using randomNumber_double_nat [OF pow10_bounds(1) [OF assms(1,2)] _ assms(3,4)] by blast
  have "random_ticket_double d r =
      ticketNumber_of (nat \<lfloor>randomNumber_double (of_nat (10 ^ d - 1)) r\<rfloor>) d"
    by (simp only: random_ticket_double_def Let_def maxNumber_double_exact [OF assms(1,2)])
  also have "nat \<lfloor>randomNumber_double (of_nat (10 ^ d - 1)) r\<rfloor> = v"
    by (simp only: v(1) floor_of_nat nat_int)
  finally have "random_ticket_double d r = ticketNumber_of v d" .
  moreover have "random_ticket d (of_nat (v - 1) / of_nat (10 ^ d - 1)) = ticketNumber_of v d"
    using random_ticket_at [OF assms(1) v(2,3)] .
  ultimately show ?thesis using v(2,3) by blast
qed
section \<open>Properties of the submission sheet\<close>

lemma digit_not_white: "isDigit c \<Longrightarrow> \<not> isWhiteSpace c"
  by (auto simp: isDigit_def isWhiteSpace_def)

lemma digit_not_sign: "isDigit c \<Longrightarrow> c \<noteq> CHR ''+'' \<and> c \<noteq> CHR ''-''"
  by (auto simp: isDigit_def)

lemma dropWhile_id: "xs \<noteq> [] \<Longrightarrow> \<not> P (hd xs) \<Longrightarrow> dropWhile P xs = xs"
  by (cases xs) simp_all

lemma trim_digits:
  assumes "s \<noteq> []" and "list_all isDigit s"
  shows "trim s = s"
proof -
  have "isDigit (hd s)" using assms by (cases s) simp_all
  then have 1: "dropWhile isWhiteSpace s = s"
    using assms(1) by (intro dropWhile_id digit_not_white)
  have "hd (rev s) \<in> set s" using assms(1) by (simp add: hd_rev)
  then have "isDigit (hd (rev s))" using assms(2) by (simp add: list_all_iff)
  then have 2: "dropWhile isWhiteSpace (rev s) = rev s"
    using assms(1) by (intro dropWhile_id digit_not_white) simp_all
  show ?thesis by (simp add: trim_def 1 2)
qed

lemma digits_unsigned_literal:
  assumes "s \<noteq> []" and "list_all isDigit s"
  shows "isStrUnsignedDecimalLiteral s"
proof -
  have tw: "takeWhile isDigit s = s" and dw: "dropWhile isDigit s = []"
    using assms(2) by (simp_all add: list_all_iff)
  show ?thesis
    unfolding isStrUnsignedDecimalLiteral_def Let_def tw dw using assms(1) by simp
qed

lemma digits_not_NaN:
  assumes "s \<noteq> []" and "list_all isDigit s"
  shows "\<not> isNaN_Number s"
proof -
  obtain c t where s: "s = c # t" using assms(1) by (cases s) auto
  then have "isDigit c" using assms(2) by simp
  then have "c \<noteq> CHR ''+'' \<and> c \<noteq> CHR ''-''" by (rule digit_not_sign)
  then have "isStrDecimalLiteral s"
    using digits_unsigned_literal [OF assms] by (simp add: isStrDecimalLiteral_def s)
  then show ?thesis
    by (simp add: isNaN_Number_def trim_digits [OF assms])
qed

lemma valid_not_invalidNumber: "0 < d \<Longrightarrow> isValid s d \<Longrightarrow> \<not> invalidNumber d s"
  using digits_not_NaN [of s] by (auto simp: invalidNumber_def isValid_def)

lemma remdups_length_distinct: "length (remdups xs) \<noteq> length xs \<longleftrightarrow> \<not> distinct xs"
  by (simp add: length_remdups_eq remdups_id_iff_distinct)

lemma handleApprove_invalid:
  assumes "submission props = Some sub"
    and "\<exists>n \<in> set (ticketNumbers w). invalidNumber (raffleMaxDigits props) n"
  shows "handleApprove props ok w = showAlert (InvalidTicketNumbers (raffleMaxDigits props)) w"
proof -
  have "filter (invalidNumber (raffleMaxDigits props)) (ticketNumbers w) \<noteq> []"
    using assms(2) by (simp add: filter_empty_conv)
  then show ?thesis
    using assms(1) by (simp add: handleApprove_def)
qed

lemma handleApprove_duplicate:
  assumes "submission props = Some sub"
    and "\<forall>n \<in> set (ticketNumbers w). \<not> invalidNumber (raffleMaxDigits props) n"
    and "\<not> distinct (ticketNumbers w)"
  shows "handleApprove props ok w = showAlert TicketNumbersNotUnique w"
proof -
  have "filter (invalidNumber (raffleMaxDigits props)) (ticketNumbers w) = []"
    using assms(2) by (simp add: filter_empty_conv)
  then show ?thesis
    using assms(1,3) by (simp add: handleApprove_def remdups_length_distinct)
qed

lemma handleApprove_conflict:
  assumes "submission props = Some sub"
    and "\<forall>n \<in> set (ticketNumbers w). \<not> invalidNumber (raffleMaxDigits props) n"
    and "distinct (ticketNumbers w)"
    and "\<exists>n \<in> set (ticketNumbers w). n \<in> set (existingTicketNumbers props)"
  shows "handleApprove props ok w =
           showAlert (TicketNumbersExist
             (filter (\<lambda>number. number \<in> set (existingTicketNumbers props)) (ticketNumbers w))) w"
proof -
  have 1: "filter (invalidNumber (raffleMaxDigits props)) (ticketNumbers w) = []"
    using assms(2) by (simp add: filter_empty_conv)
  have 2: "filter (\<lambda>number. number \<in> set (existingTicketNumbers props)) (ticketNumbers w) \<noteq> []"
    using assms(4) by (simp add: filter_empty_conv)
  show ?thesis
    using assms(1,3) 1 2 by (simp add: handleApprove_def remdups_length_distinct Let_def)
qed

lemma handleApprove_commit:
  assumes "submission props = Some sub"
    and "\<forall>n \<in> set (ticketNumbers w). \<not> invalidNumber (raffleMaxDigits props) n"
    and "distinct (ticketNumbers w)"
    and "set (ticketNumbers w) \<inter> set (existingTicketNumbers props) = {}"
  shows "requests (handleApprove props ok w) =
           requests w @ [UpdateSubmission (submission_id sub)
              \<lparr>data_status = Approved, data_assignTickets = Some True,
               data_ticketNumbers = Some (ticketNumbers w), data_admin_notes = None\<rparr>]"
proof -
  have 1: "filter (invalidNumber (raffleMaxDigits props)) (ticketNumbers w) = []"
    using assms(2) by (simp add: filter_empty_conv)
  have 2: "filter (\<lambda>number. number \<in> set (existingTicketNumbers props)) (ticketNumbers w) = []"
    using assms(4) by (auto simp: filter_empty_conv)
  show ?thesis
    using assms(1,3) 1 2
    by (simp add: handleApprove_def remdups_length_distinct Let_def mutateAsync_def onSuccess_def
        showAlert_def onClose_def)
qed

lemma showAlert_frame: "requests (showAlert a w) = requests w \<and> queries (showAlert a w) = queries w"
  by (simp add: showAlert_def)

lemmas js_defs = isNaN_Number_def trim_def isWhiteSpace_def isStrDecimalLiteral_def
  isStrUnsignedDecimalLiteral_def isExponentPartOpt_def isSignedInteger_def isDecimalDigits_def
  isNonDecimalIntegerLiteral_def isDigit_def

lemma isNaN_Number_examples:
  "\<not> isNaN_Number ''001''" "\<not> isNaN_Number ''1e2''" "\<not> isNaN_Number ''-12''"
  "\<not> isNaN_Number '' 12''" "\<not> isNaN_Number ''1.5''" "\<not> isNaN_Number ''0x1''"
  "\<not> isNaN_Number ''   ''" "\<not> isNaN_Number ''Infinity''"
  "isNaN_Number ''12a''" "isNaN_Number ''1e+''" "isNaN_Number ''.''" "isNaN_Number ''--1''"
  "isNaN_Number ''1 2''" "isNaN_Number ''0x''" "isNaN_Number ''abc''"
  by (simp_all add: js_defs)

lemma sample_010_ok: "\<not> invalidNumber 3 ''010''"
  by (simp add: invalidNumber_def js_defs)

lemma sample_011_ok: "\<not> invalidNumber 3 ''011''"
  by (simp add: invalidNumber_def js_defs)

lemma sample_1_invalid: "invalidNumber 3 ''1''"
  by (simp add: invalidNumber_def)

subsection \<open>approve\<close>

text \<open>
  Persisted state (the status of the submission, its tickets) changes only through an
  update request, so a handler run that sends none leaves the submission as it was.
\<close>

text \<open>
  Claim C4 (as amended). For every pending submission, approving with a list of ticket
  numbers that contains a duplicate sends no update request and leaves the query cache
  untouched. When every element passes the format check the failure is the alert
  "ticket numbers are unique" (\<^verbatim>\<open>DuplicateInBatch\<close>); when some element fails the format
  check, the format alert comes first.
\<close>

theorem approve_duplicate_no_commit:
  assumes "submission props = Some sub" and "submission_status sub = Pending"
    and "\<not> distinct (ticketNumbers w)"
  shows "requests (handleApprove props ok w) = requests w \<and>
         queries (handleApprove props ok w) = queries w \<and>
         ((\<forall>n \<in> set (ticketNumbers w). \<not> invalidNumber (raffleMaxDigits props) n) \<longrightarrow>
            handleApprove props ok w = showAlert TicketNumbersNotUnique w) \<and>
         ((\<exists>n \<in> set (ticketNumbers w). invalidNumber (raffleMaxDigits props) n) \<longrightarrow>
            handleApprove props ok w = showAlert (InvalidTicketNumbers (raffleMaxDigits props)) w)"
proof (cases "\<exists>n \<in> set (ticketNumbers w). invalidNumber (raffleMaxDigits props) n")
  case True
  then show ?thesis
    using handleApprove_invalid [OF assms(1) True, of ok] by (auto simp: showAlert_frame)
next
  case False
  then have "handleApprove props ok w = showAlert TicketNumbersNotUnique w"
    using handleApprove_duplicate [OF assms(1) _ assms(3), of ok] by simp
  then show ?thesis
    using False by (simp add: showAlert_frame)
qed

theorem approve_duplicate_no_commit_witness:
  "handleApprove (sample_props []) True (sample_sheet [''010'', ''010''] [] []) =
     showAlert TicketNumbersNotUnique (sample_sheet [''010'', ''010''] [] []) \<and>
   requests (handleApprove (sample_props []) True (sample_sheet [''010'', ''010''] [] [])) = []"
  using approve_duplicate_no_commit
    [of "sample_props []" sample_submission "sample_sheet [''010'', ''010''] [] []" True]
    sample_010_ok
  by (simp add: showAlert_def)

text \<open>The claim as stated fails: a duplicated number that is too short is reported by the
  format alert, not as a duplicate.\<close>

theorem duplicate_of_invalid_numbers:
  "alerts (handleApprove (sample_props []) True (sample_sheet [''1'', ''1''] [] [])) =
     [InvalidTicketNumbers 3]"
  using handleApprove_invalid [of "sample_props []" sample_submission "sample_sheet [''1'', ''1''] [] []" True]
    sample_1_invalid
  by (simp add: showAlert_def)

text \<open>
  Claim C5 (as amended). For every pending submission, approving with a list that contains
  a number already among the existing ticket numbers sends no update request. When every
  element passes the format check and the elements are pairwise distinct, the failure is
  the alert "already exist" (\<^verbatim>\<open>ConflictWithExisting\<close>), and it names exactly the numbers
  of the list that are among the existing ones, each once.
\<close>

theorem approve_conflict_names_conflicts:
  assumes "submission props = Some sub" and "submission_status sub = Pending"
    and "\<exists>n \<in> set (ticketNumbers w). n \<in> set (existingTicketNumbers props)"
  shows "requests (handleApprove props ok w) = requests w \<and>
         ((\<forall>n \<in> set (ticketNumbers w). \<not> invalidNumber (raffleMaxDigits props) n) \<and>
          distinct (ticketNumbers w) \<longrightarrow>
            (\<exists>conflicts.
               handleApprove props ok w = showAlert (TicketNumbersExist conflicts) w \<and>
               set conflicts = set (ticketNumbers w) \<inter> set (existingTicketNumbers props) \<and>
               distinct conflicts))"
proof -
  let ?conflicts = "filter (\<lambda>number. number \<in> set (existingTicketNumbers props)) (ticketNumbers w)"
  consider
    (invalid) "\<exists>n \<in> set (ticketNumbers w). invalidNumber (raffleMaxDigits props) n"
    | (dup) "\<forall>n \<in> set (ticketNumbers w). \<not> invalidNumber (raffleMaxDigits props) n"
        "\<not> distinct (ticketNumbers w)"
    | (conflict) "\<forall>n \<in> set (ticketNumbers w). \<not> invalidNumber (raffleMaxDigits props) n"
        "distinct (ticketNumbers w)"
    by blast
  then show ?thesis
  proof cases
    case invalid
    then show ?thesis
      using handleApprove_invalid [OF assms(1) invalid, of ok] by (auto simp: showAlert_frame)
  next
    case dup
    then show ?thesis
      using handleApprove_duplicate [OF assms(1) dup, of ok] by (simp add: showAlert_frame)
  next
    case conflict
    have eq: "handleApprove props ok w = showAlert (TicketNumbersExist ?conflicts) w"
      using handleApprove_conflict [OF assms(1) conflict assms(3)] .
    moreover have "set ?conflicts = set (ticketNumbers w) \<inter> set (existingTicketNumbers props)"
      by auto
    moreover have "distinct ?conflicts"
      using conflict(2) by simp
    ultimately show ?thesis
      by (metis showAlert_frame)
  qed
qed

theorem approve_conflict_names_conflicts_witness:
  "requests (handleApprove (sample_props [''010'', ''500'']) True (sample_sheet [''010'', ''011''] [] [])) = [] \<and>
   (\<exists>conflicts.
      handleApprove (sample_props [''010'', ''500'']) True (sample_sheet [''010'', ''011''] [] []) =
        showAlert (TicketNumbersExist conflicts) (sample_sheet [''010'', ''011''] [] []) \<and>
      set conflicts = {''010''} \<and> distinct conflicts)"
  using approve_conflict_names_conflicts
    [of "sample_props [''010'', ''500'']" sample_submission "sample_sheet [''010'', ''011''] [] []" True]
    sample_010_ok sample_011_ok
  by (simp add: showAlert_def)

text \<open>The claim as stated fails: a conflicting number given twice is reported as a
  duplicate, and no conflict is named.\<close>

theorem conflict_in_duplicated_batch:
  "alerts (handleApprove (sample_props [''010'']) True (sample_sheet [''010'', ''010''] [] [])) =
     [TicketNumbersNotUnique]"
  using handleApprove_duplicate
    [of "sample_props [''010'']" sample_submission "sample_sheet [''010'', ''010''] [] []" True]
    sample_010_ok
  by (simp add: showAlert_def)

text \<open>
  Claim C6. Before committing, approve is to check that every element is a string of
  exactly \<open>raffleMaxDigits\<close> decimal digits, and to fail without committing when an element
  of that length is not all digits. The code does not: its numeric test is
  \<^verbatim>\<open>isNaN(Number(number))\<close>, which a signed number and a decimal fraction pass, so the batch
  \<^verbatim>\<open>["-12", "1.5"]\<close> at width 3, neither element a ticket number, passes the three checks
  and is sent in the update request.
\<close>

theorem approve_commits_non_digit_numbers:
  "\<not> isValid ''-12'' 3 \<and> \<not> isValid ''1.5'' 3 \<and>
   length [''-12'', ''1.5''] = ticket_quantity sample_submission \<and>
   requests (handleApprove (sample_props []) True (sample_sheet [''-12'', ''1.5''] [] [])) =
     [UpdateSubmission ''s1''
        \<lparr>data_status = Approved, data_assignTickets = Some True,
         data_ticketNumbers = Some [''-12'', ''1.5''], data_admin_notes = None\<rparr>]"
proof -
  have "\<not> invalidNumber 3 ''-12''" "\<not> invalidNumber 3 ''1.5''"
    by (simp_all add: invalidNumber_def js_defs)
  then have "requests (handleApprove (sample_props []) True (sample_sheet [''-12'', ''1.5''] [] [])) =
     [UpdateSubmission ''s1''
        \<lparr>data_status = Approved, data_assignTickets = Some True,
         data_ticketNumbers = Some [''-12'', ''1.5''], data_admin_notes = None\<rparr>]"
    using handleApprove_commit
      [of "sample_props []" sample_submission "sample_sheet [''-12'', ''1.5''] [] []" True]
    by simp
  moreover have "\<not> isValid ''-12'' 3" "\<not> isValid ''1.5'' 3"
    by (simp_all add: isValid_def isDigit_def)
  ultimately show ?thesis by simp
qed

text \<open>What the format check does guarantee: an element that is empty or not of exactly
  \<open>raffleMaxDigits\<close> characters, or that \<^verbatim>\<open>Number\<close> does not read, stops the batch.\<close>

lemma approve_rejects_malformed:
  assumes "submission props = Some sub"
    and "\<exists>n \<in> set (ticketNumbers w).
           n = [] \<or> length n \<noteq> raffleMaxDigits props \<or> isNaN_Number n"
  shows "handleApprove props ok w = showAlert (InvalidTicketNumbers (raffleMaxDigits props)) w"
    and "requests (handleApprove props ok w) = requests w"
proof -
  have inv: "\<exists>n \<in> set (ticketNumbers w). invalidNumber (raffleMaxDigits props) n"
    using assms(2) by (simp add: invalidNumber_def)
  show "handleApprove props ok w = showAlert (InvalidTicketNumbers (raffleMaxDigits props)) w"
    using handleApprove_invalid [OF assms(1) inv] .
  then show "requests (handleApprove props ok w) = requests w"
    by (simp add: showAlert_frame)
qed

subsection \<open>reject\<close>

lemma partialMatchKey_single:
  "partialMatchKey key [Some name] \<longleftrightarrow> (case key of Some m # _ \<Rightarrow> m = name | _ \<Rightarrow> False)"
  by (cases key) (auto split: option.splits)

lemma invalidate_four:
  "invalidateQueries [Some ''approvedTickets'']
     (invalidateQueries [Some ''existingTicketNumbers'']
       (invalidateQueries [Some ''stats'']
         (invalidateQueries [Some ''submissions''] qs))) =
   map (\<lambda>q. if staleAfterUpdate (queryKey q) then q\<lparr>isInvalidated := True\<rparr> else q) qs"
  unfolding invalidateQueries_def map_map
  by (rule map_cong [OF refl])
     (simp add: partialMatchKey_single staleAfterUpdate_def split: list.splits option.splits)

lemma handleReject_ok:
  assumes "submission props = Some sub" and "trim (rejectionNote w) \<noteq> []"
  shows "handleReject props True w =
     w\<lparr>alerts := alerts w @ [RejectSucceeded],
       requests := requests w @ [UpdateSubmission (submission_id sub)
          \<lparr>data_status = Rejected, data_assignTickets = None,
           data_ticketNumbers = None, data_admin_notes = Some (rejectionNote w)\<rparr>],
       queries := map (\<lambda>q. if staleAfterUpdate (queryKey q) then q\<lparr>isInvalidated := True\<rparr> else q) (queries w),
       onCloseCalls := onCloseCalls w + 1,
       isRejecting := False\<rparr>"
  using assms
  by (simp add: handleReject_def Let_def mutateAsync_def onSuccess_def showAlert_def onClose_def
      invalidate_four)

lemma staleAfterUpdate_take:
  "staleAfterUpdate key \<longleftrightarrow>
     take 1 key \<in> {[Some ''submissions''], [Some ''stats''], [Some ''existingTicketNumbers''],
                    [Some ''approvedTickets'']}"
  by (cases key) (auto simp: staleAfterUpdate_def split: option.splits)

lemma trim_sample_note: "trim ''no proof'' \<noteq> []"
  by (simp add: trim_def isWhiteSpace_def)

text \<open>
  Claim C8 (as amended). A successful reject sends the update request and runs the same
  \<^verbatim>\<open>onSuccess\<close> as every submission update: the queries whose key starts with
  \<^verbatim>\<open>submissions\<close>, \<^verbatim>\<open>stats\<close>, \<^verbatim>\<open>existingTicketNumbers\<close> or \<^verbatim>\<open>approvedTickets\<close> are marked
  invalidated, the ticket lists among them, and every other query keeps its flag.
\<close>

theorem reject_invalidates_ticket_lists:
  assumes "submission props = Some sub" and "submission_status sub = Pending"
    and "trim (rejectionNote w) \<noteq> []"
  shows "requests (handleReject props True w) =
           requests w @ [UpdateSubmission (submission_id sub)
              \<lparr>data_status = Rejected, data_assignTickets = None,
               data_ticketNumbers = None, data_admin_notes = Some (rejectionNote w)\<rparr>] \<and>
         list_all2
           (\<lambda>q' q. queryKey q' = queryKey q \<and>
              (isInvalidated q' \<longleftrightarrow>
                 isInvalidated q \<or>
                 take 1 (queryKey q) \<in>
                   {[Some ''submissions''], [Some ''stats''], [Some ''existingTicketNumbers''],
                    [Some ''approvedTickets'']}))
           (queries (handleReject props True w)) (queries w)"
proof -
  note r = handleReject_ok [OF assms(1,3)]
  have "list_all2
           (\<lambda>q' q. queryKey q' = queryKey q \<and>
              (isInvalidated q' \<longleftrightarrow>
                 isInvalidated q \<or>
                 take 1 (queryKey q) \<in>
                   {[Some ''submissions''], [Some ''stats''], [Some ''existingTicketNumbers''],
                    [Some ''approvedTickets'']}))
           (map (\<lambda>q. if staleAfterUpdate (queryKey q) then q\<lparr>isInvalidated := True\<rparr> else q) (queries w))
           (queries w)"
    unfolding list_all2_map1
    by (rule list.rel_refl_strong) (simp add: staleAfterUpdate_take)
  then show ?thesis
    by (simp add: r)
qed

theorem reject_invalidates_ticket_lists_witness:
  "map isInvalidated
     (queries (handleReject (sample_props []) True
        (sample_sheet [] ''no proof''
           [\<lparr>queryKey = [Some ''submissions'', Some ''pending'', None], isInvalidated = False\<rparr>,
            \<lparr>queryKey = [Some ''raffles''], isInvalidated = False\<rparr>,
            \<lparr>queryKey = [Some ''stats''], isInvalidated = False\<rparr>]))) =
   [True, False, True]"
  using reject_invalidates_ticket_lists
    [of "sample_props []" sample_submission
        "sample_sheet [] ''no proof''
           [\<lparr>queryKey = [Some ''submissions'', Some ''pending'', None], isInvalidated = False\<rparr>,
            \<lparr>queryKey = [Some ''raffles''], isInvalidated = False\<rparr>,
            \<lparr>queryKey = [Some ''stats''], isInvalidated = False\<rparr>]"]
    trim_sample_note
  by (auto simp: list_all2_Cons2)

text \<open>The claim as stated fails: the two ticket-list queries are invalidated by a
  reject.\<close>

theorem reject_marks_ticket_lists_stale:
  "queries (handleReject (sample_props []) True
      (sample_sheet [] ''no proof''
         [\<lparr>queryKey = [Some ''approvedTickets'', Some ''r1''], isInvalidated = False\<rparr>,
          \<lparr>queryKey = [Some ''existingTicketNumbers'', Some ''r1''], isInvalidated = False\<rparr>])) =
   [\<lparr>queryKey = [Some ''approvedTickets'', Some ''r1''], isInvalidated = True\<rparr>,
    \<lparr>queryKey = [Some ''existingTicketNumbers'', Some ''r1''], isInvalidated = True\<rparr>]"
  using handleReject_ok
    [of "sample_props []" sample_submission
        "sample_sheet [] ''no proof''
         [\<lparr>queryKey = [Some ''approvedTickets'', Some ''r1''], isInvalidated = False\<rparr>,
          \<lparr>queryKey = [Some ''existingTicketNumbers'', Some ''r1''], isInvalidated = False\<rparr>]"]
    trim_sample_note
  by (simp add: staleAfterUpdate_def)

section \<open>Properties of the paged lists and of the current raffle\<close>

lemma flatMap_append: "flatMap f (xs @ ys) = flatMap f xs @ flatMap f ys"
  by (induction xs) simp_all

lemma count_list_append: "count_list (xs @ ys) a = count_list xs a + count_list ys a"
  by (induction xs) simp_all

lemma count_flatMap:
  "count_list (map g (flatMap f pages)) a = sum_list (map (\<lambda>p. count_list (map g (f p)) a) pages)"
  by (induction pages) (simp_all add: count_list_append)

text \<open>
  Claim C7 (as amended). The accumulated list is the concatenation of the fetched pages in
  their order, with no deduplication: a newly fetched page is appended whole, and an item
  id occurs in the accumulation as many times as it occurs in the pages together (for
  submissions, tickets and raffles alike).
\<close>

theorem pages_are_concatenated:
  "allSubmissions (Some (pages @ [page])) = allSubmissions (Some pages) @ submissions page \<and>
   allTickets (Some (tpages @ [tpage])) = allTickets (Some tpages) @ tickets tpage \<and>
   allRaffles (Some (rpages @ [rpage])) = allRaffles (Some rpages) @ raffles rpage \<and>
   count_list (map submission_id (allSubmissions (Some pages))) i =
     sum_list (map (\<lambda>p. count_list (map submission_id (submissions p)) i) pages) \<and>
   count_list (map ticket_id (allTickets (Some tpages))) i =
     sum_list (map (\<lambda>p. count_list (map ticket_id (tickets p)) i) tpages) \<and>
   count_list (map raffle_id (allRaffles (Some rpages))) i =
     sum_list (map (\<lambda>p. count_list (map raffle_id (raffles p)) i) rpages)"
  by (simp add: allSubmissions_def allTickets_def allRaffles_def flatMap_append count_flatMap)

theorem pages_are_concatenated_witness:
  "count_list (map submission_id (allSubmissions (Some
      [\<lparr>submissions = [sample_submission], submissions_pagination = \<lparr>hasMore = True, nextCursor = Some ''c1''\<rparr>\<rparr>,
       \<lparr>submissions = [sample_submission], submissions_pagination = \<lparr>hasMore = False, nextCursor = None\<rparr>\<rparr>])))
     ''s1'' = 2"
  using pages_are_concatenated
    [of "[\<lparr>submissions = [sample_submission], submissions_pagination = \<lparr>hasMore = True, nextCursor = Some ''c1''\<rparr>\<rparr>]"
        "\<lparr>submissions = [sample_submission], submissions_pagination = \<lparr>hasMore = False, nextCursor = None\<rparr>\<rparr>"
        "[]" _ "[]" _ "''s1''"]
  by (simp add: allSubmissions_def)

text \<open>The claim as stated fails: an item returned in two pages is in the accumulation
  twice.\<close>

theorem moved_item_appears_twice:
  "map submission_id (allSubmissions (Some
      [\<lparr>submissions = [\<lparr>submission_id = ''s3'', ticket_quantity = 1, submission_status = Pending\<rparr>,
                       \<lparr>submission_id = ''s2'', ticket_quantity = 1, submission_status = Pending\<rparr>],
        submissions_pagination = \<lparr>hasMore = True, nextCursor = Some ''c1''\<rparr>\<rparr>,
       \<lparr>submissions = [\<lparr>submission_id = ''s2'', ticket_quantity = 1, submission_status = Pending\<rparr>,
                       \<lparr>submission_id = ''s1'', ticket_quantity = 1, submission_status = Pending\<rparr>],
        submissions_pagination = \<lparr>hasMore = False, nextCursor = None\<rparr>\<rparr>])) =
   [''s3'', ''s2'', ''s2'', ''s1'']"
  by (simp add: allSubmissions_def)












section \<open>Properties of the raffle form\<close>

lemmas parseInt_defs = parseInt_def trimStart_def isWhiteSpace_def isHexDigit_def isDigit_def
  radixValue_def digitValue_def Let_def

lemma parseInt_4: "parseInt ''4'' = Some 4" by (simp add: parseInt_defs)

lemma parseInt_examples:
  "parseInt '' 10abc'' = Some 10" "parseInt ''0x1F'' = Some 31" "parseInt ''-7.5'' = Some (- 7)"
  "parseInt ''abc'' = None" "parseInt ''0x'' = None" "parseInt ''+12'' = Some 12"
  "parseInt [] = None" "parseInt ''1e3'' = Some 1"
  by (simp_all add: parseInt_defs)

text \<open>
  Claim C9. Editing an existing raffle never sends \<open>max_ticket_digits\<close>: for every existing
  raffle and every state of the form, the object that \<^verbatim>\<open>handleSave\<close> passes to \<^verbatim>\<open>onSave\<close>
  has no such field; the object for a new raffle always has it, with a value from 1 to 10.
\<close>

theorem save_payload_max_digits:
  "(handleSave parseFloat f (Some raffle) = Inr payload \<longrightarrow> max_ticket_digits payload = None) \<and>
   (handleSave parseFloat f None = Inr payload' \<longrightarrow>
      (\<exists>d. max_ticket_digits payload' = Some (Some d) \<and> 1 \<le> d \<and> d \<le> 10))"
proof (intro conjI impI)
  assume "handleSave parseFloat f (Some raffle) = Inr payload"
  then show "max_ticket_digits payload = None"
    by (auto simp: handleSave_def Let_def split: if_splits)
next
  assume a: "handleSave parseFloat f None = Inr payload'"
  show "\<exists>d. max_ticket_digits payload' = Some (Some d) \<and> 1 \<le> d \<and> d \<le> 10"
  proof (cases "parseInt (form_maxDigits f)")
    case None
    then show ?thesis
      using a by (simp add: handleSave_def Let_def split: if_splits)
  next
    case (Some n)
    then show ?thesis
      using a by (auto simp: handleSave_def Let_def split: if_splits)
  qed
qed

lemma trim_sample_title: "trim ''Spring raffle'' = ''Spring raffle''"
  by (simp add: trim_def isWhiteSpace_def)

lemma trim_sample_texts: "trim ''5'' = ''5''" "trim ''4'' = ''4''" "trim [] = []"
  by (simp_all add: trim_def isWhiteSpace_def)

lemma sample_edit:
  "handleSave sample_parseFloat (sample_form ''4'') (Some (sample_raffle ''r1'' Open ''2024-01-01'')) =
     Inr \<lparr>title = ''Spring raffle'', description = None, ticket_price = Finite 5, status = Draft,
          image_url = None, max_ticket_digits = None\<rparr>"
  by (simp add: handleSave_def trim_sample_title trim_sample_texts lessEqualZero_def parseInt_4)

lemma sample_create:
  "handleSave sample_parseFloat (sample_form ''4'') None =
     Inr \<lparr>title = ''Spring raffle'', description = None, ticket_price = Finite 5, status = Draft,
          image_url = None, max_ticket_digits = Some (Some 4)\<rparr>"
  by (simp add: handleSave_def trim_sample_title trim_sample_texts lessEqualZero_def parseInt_4)

theorem save_payload_max_digits_witness:
  "(\<exists>payload.
      handleSave sample_parseFloat (sample_form ''4'') (Some (sample_raffle ''r1'' Open ''2024-01-01'')) =
        Inr payload \<and> max_ticket_digits payload = None) \<and>
   (\<exists>payload d.
      handleSave sample_parseFloat (sample_form ''4'') None = Inr payload \<and>
      max_ticket_digits payload = Some (Some d) \<and> 1 \<le> d \<and> d \<le> 10)"
  using save_payload_max_digits
    [of sample_parseFloat "sample_form ''4''" "sample_raffle ''r1'' Open ''2024-01-01''"
        "\<lparr>title = ''Spring raffle'', description = None, ticket_price = Finite 5, status = Draft,
          image_url = None, max_ticket_digits = None\<rparr>"
        "\<lparr>title = ''Spring raffle'', description = None, ticket_price = Finite 5, status = Draft,
          image_url = None, max_ticket_digits = Some (Some 4)\<rparr>"]
    sample_edit sample_create
  by simp

lemma sample_create_rejected:
  "handleSave sample_parseFloat (sample_form ''11'') None = Inl MaxDigitsOutOfRange"
  "handleSave sample_parseFloat (sample_form ''x'') None = Inl ValidMaxDigitsRequired"
  by (simp_all add: handleSave_def trim_sample_title trim_sample_texts lessEqualZero_def
      parseInt_defs trim_def)

end
